theory Spec2Isabelle
  imports Complex_Main
begin

section \<open>Strings of the host language\<close>

text \<open>
  The interpreter of \<^verbatim>\<open>src/services/pythonExecutor.ts\<close> works on raw strings with
  \<^verbatim>\<open>trim\<close>, \<^verbatim>\<open>startsWith\<close>, \<^verbatim>\<open>substring\<close> and regular expressions. A string is
  modelled as a \<^typ>\<open>string\<close>, one \<^typ>\<open>char\<close> per code unit, so the alphabet is the
  code units below 256. In that range the white space of \<^verbatim>\<open>trim\<close> and of the regular
  expression class \<^verbatim>\<open>\s\<close> is TAB, LF, VT, FF, CR, SPACE and NBSP; the line terminators that
  \<^verbatim>\<open>.\<close> refuses are LF and CR; \<^verbatim>\<open>\w\<close> is a letter, a digit or the underscore.
\<close>

definition dquote :: char where
  "dquote = CHR 0x22"

definition squote :: char where
  "squote = CHR 0x27"

definition isSpace :: "char \<Rightarrow> bool" where
  "isSpace c \<longleftrightarrow> c = CHR 0x09 \<or> c = CHR 0x0A \<or> c = CHR 0x0B \<or> c = CHR 0x0C
     \<or> c = CHR 0x0D \<or> c = CHR 0x20 \<or> c = CHR 0xA0"

definition isLineTerminator :: "char \<Rightarrow> bool" where
  "isLineTerminator c \<longleftrightarrow> c = CHR 0x0A \<or> c = CHR 0x0D"

definition isDigit :: "char \<Rightarrow> bool" where
  "isDigit c \<longleftrightarrow> (48::nat) \<le> of_char c \<and> of_char c \<le> (57::nat)"

definition isWord :: "char \<Rightarrow> bool" where
  "isWord c \<longleftrightarrow> isDigit c
     \<or> ((65::nat) \<le> of_char c \<and> of_char c \<le> (90::nat))
     \<or> ((97::nat) \<le> of_char c \<and> of_char c \<le> (122::nat))
     \<or> c = CHR ''_''"

text \<open>\<^verbatim>\<open>s.trim()\<close>.\<close>

definition trim :: "string \<Rightarrow> string" where
  "trim s = rev (dropWhile isSpace (rev (dropWhile isSpace s)))"

text \<open>\<^verbatim>\<open>s.startsWith(p)\<close> and \<^verbatim>\<open>s.endsWith(p)\<close>.\<close>

definition startsWith :: "string \<Rightarrow> string \<Rightarrow> bool" where
  "startsWith s p \<longleftrightarrow> take (length p) s = p"

definition endsWith :: "string \<Rightarrow> string \<Rightarrow> bool" where
  "endsWith s p \<longleftrightarrow> startsWith (rev s) (rev p)"

text \<open>\<^verbatim>\<open>code.split('\n')\<close> and \<^verbatim>\<open>lines.join('\n')\<close>.\<close>

fun splitLines :: "string \<Rightarrow> string list" where
  "splitLines [] = [[]]"
| "splitLines (c # cs) =
     (if c = CHR 0x0A then [] # splitLines cs
      else (case splitLines cs of
              l # ls \<Rightarrow> (c # l) # ls
            | [] \<Rightarrow> [[c]]))"

fun joinLines :: "string list \<Rightarrow> string" where
  "joinLines [] = []"
| "joinLines [l] = l"
| "joinLines (l # ls) = l @ CHR 0x0A # joinLines ls"

section \<open>Numbers and values\<close>

text \<open>
  A value of the interpreted program is a number or a string. The numbers of the host
  language are binary floating point; here the finite ones are exact rationals, so rounding
  and overflow are not modelled, and the two zeros are one (the program cannot tell them
  apart: it refuses to divide by either, and both print as \<^verbatim>\<open>0\<close>). The infinities and
  NaN are kept, since \<^verbatim>\<open>Number("Infinity")\<close> is one way into the program and
  \<^verbatim>\<open>typeof NaN\<close> is \<^verbatim>\<open>'number'\<close>.
\<close>

datatype number = Fin rat | PInf | NInf | NaN

datatype val = VNum number | VStr string

text \<open>
  A scope maps the names that are bound to their values. The host keeps it in an object;
  the properties such an object inherits (\<^verbatim>\<open>toString\<close>, \<^verbatim>\<open>constructor\<close>) and values
  of other types, which a caller could put into the initial scope, are left out of the
  model.
\<close>

type_synonym scope = "string \<rightharpoonup> val"

fun isNaN :: "number \<Rightarrow> bool" where
  "isNaN NaN = True"
| "isNaN _ = False"

fun negate :: "number \<Rightarrow> number" where
  "negate (Fin r) = Fin (- r)"
| "negate PInf = NInf"
| "negate NInf = PInf"
| "negate NaN = NaN"

fun add :: "number \<Rightarrow> number \<Rightarrow> number" where
  "add NaN _ = NaN"
| "add _ NaN = NaN"
| "add (Fin a) (Fin b) = Fin (a + b)"
| "add (Fin a) y = y"
| "add x (Fin b) = x"
| "add PInf PInf = PInf"
| "add NInf NInf = NInf"
| "add PInf NInf = NaN"
| "add NInf PInf = NaN"

definition subtract :: "number \<Rightarrow> number \<Rightarrow> number" where
  "subtract x y = add x (negate y)"

definition signed :: "bool \<Rightarrow> number" where
  "signed positive = (if positive then PInf else NInf)"

fun multiply :: "number \<Rightarrow> number \<Rightarrow> number" where
  "multiply NaN _ = NaN"
| "multiply _ NaN = NaN"
| "multiply (Fin a) (Fin b) = Fin (a * b)"
| "multiply (Fin a) PInf = (if a = 0 then NaN else signed (0 < a))"
| "multiply (Fin a) NInf = (if a = 0 then NaN else signed (a < 0))"
| "multiply PInf (Fin b) = (if b = 0 then NaN else signed (0 < b))"
| "multiply NInf (Fin b) = (if b = 0 then NaN else signed (b < 0))"
| "multiply PInf PInf = PInf"
| "multiply NInf NInf = PInf"
| "multiply PInf NInf = NInf"
| "multiply NInf PInf = NInf"

text \<open>Division; the interpreter only divides by a right operand that is not zero.\<close>

fun divide :: "number \<Rightarrow> number \<Rightarrow> number" where
  "divide NaN _ = NaN"
| "divide _ NaN = NaN"
| "divide (Fin a) (Fin b) =
     (if b = 0 then (if a = 0 then NaN else signed (0 < a)) else Fin (a / b))"
| "divide (Fin a) PInf = Fin 0"
| "divide (Fin a) NInf = Fin 0"
| "divide PInf (Fin b) = signed (0 \<le> b)"
| "divide NInf (Fin b) = signed (b < 0)"
| "divide PInf PInf = NaN"
| "divide NInf NInf = NaN"
| "divide PInf NInf = NaN"
| "divide NInf PInf = NaN"

text \<open>\<^verbatim>\<open>k < loopLimit\<close> for a loop counter \<open>k\<close>.\<close>

fun lessThanLimit :: "nat \<Rightarrow> number \<Rightarrow> bool" where
  "lessThanLimit k (Fin r) = (of_nat k < r)"
| "lessThanLimit k PInf = True"
| "lessThanLimit k NInf = False"
| "lessThanLimit k NaN = False"

subsection \<open>\<^verbatim>\<open>Number(text)\<close>\<close>

text \<open>
  The conversion of a string to a number: white space around the text is dropped, the
  empty text is 0, then the text is a hexadecimal, octal or binary integer (\<^verbatim>\<open>0x1F\<close>,
  \<^verbatim>\<open>0o17\<close>, \<^verbatim>\<open>0b101\<close>, never signed), or an optional sign followed by \<^verbatim>\<open>Infinity\<close> or by
  a decimal literal (\<^verbatim>\<open>12\<close>, \<^verbatim>\<open>12.\<close>, \<^verbatim>\<open>12.5\<close>, \<^verbatim>\<open>.5\<close>, each with an optional exponent
  \<^verbatim>\<open>e\<close>, \<^verbatim>\<open>e+\<close>, \<^verbatim>\<open>e-\<close> and digits). Everything else is NaN.
\<close>

definition digitVal :: "char \<Rightarrow> nat" where
  "digitVal c =
     (let n = (of_char c :: nat) in
      if 48 \<le> n \<and> n \<le> 57 then n - 48
      else if 65 \<le> n \<and> n \<le> 70 then n - 55
      else n - 87)"

definition isDigitOf :: "nat \<Rightarrow> char \<Rightarrow> bool" where
  "isDigitOf base c \<longleftrightarrow>
     (let n = (of_char c :: nat) in
      ((48 \<le> n \<and> n \<le> 57) \<or> (65 \<le> n \<and> n \<le> 70) \<or> (97 \<le> n \<and> n \<le> 102))
      \<and> digitVal c < base)"

definition digitsValue :: "nat \<Rightarrow> string \<Rightarrow> nat" where
  "digitsValue base ds = foldl (\<lambda>a c. a * base + digitVal c) 0 ds"

definition nonDecimalIntegerLiteral :: "string \<Rightarrow> nat option" where
  "nonDecimalIntegerLiteral t =
     (case t of
        z # x # ds \<Rightarrow>
          (let base = (if x = CHR ''x'' \<or> x = CHR ''X'' then 16
                       else if x = CHR ''o'' \<or> x = CHR ''O'' then 8
                       else if x = CHR ''b'' \<or> x = CHR ''B'' then 2
                       else (0::nat))
           in if z = CHR ''0'' \<and> base \<noteq> 0 \<and> ds \<noteq> [] \<and> list_all (isDigitOf base) ds
              then Some (digitsValue base ds) else None)
      | _ \<Rightarrow> None)"

definition exponentPart :: "string \<Rightarrow> int option" where
  "exponentPart r =
     (case r of
        [] \<Rightarrow> Some 0
      | e # r1 \<Rightarrow>
          if e = CHR ''e'' \<or> e = CHR ''E'' then
            (let (positive, ds) =
                   (case r1 of
                      s # r2 \<Rightarrow> if s = CHR ''+'' then (True, r2)
                                else if s = CHR ''-'' then (False, r2)
                                else (True, r1)
                    | [] \<Rightarrow> (True, r1))
             in if ds \<noteq> [] \<and> list_all isDigit ds
                then Some (if positive then int (digitsValue 10 ds) else - int (digitsValue 10 ds))
                else None)
          else None)"

definition strUnsignedDecimalLiteral :: "string \<Rightarrow> rat option" where
  "strUnsignedDecimalLiteral u =
     (let ip = takeWhile isDigit u; r1 = dropWhile isDigit u;
          (fp, r2) = (case r1 of
                        d # r \<Rightarrow> if d = CHR ''.'' then (takeWhile isDigit r, dropWhile isDigit r)
                                  else ([], r1)
                      | [] \<Rightarrow> ([], r1))
      in if ip = [] \<and> fp = [] then None
         else (case exponentPart r2 of
                 None \<Rightarrow> None
               | Some e \<Rightarrow>
                   (let m = of_nat (digitsValue 10 ip) + of_nat (digitsValue 10 fp) / 10 ^ length fp
                    in Some (if 0 \<le> e then m * 10 ^ nat e else m / 10 ^ nat (- e)))))"

definition strUnsigned :: "string \<Rightarrow> number" where
  "strUnsigned u =
     (if u = ''Infinity'' then PInf
      else (case strUnsignedDecimalLiteral u of Some r \<Rightarrow> Fin r | None \<Rightarrow> NaN))"

definition Number :: "string \<Rightarrow> number" where
  "Number s =
     (let t = trim s in
      if t = [] then Fin 0
      else (case nonDecimalIntegerLiteral t of
              Some n \<Rightarrow> Fin (of_nat n)
            | None \<Rightarrow>
                (case t of
                   c # u \<Rightarrow> if c = CHR ''+'' then strUnsigned u
                             else if c = CHR ''-'' then negate (strUnsigned u)
                             else strUnsigned t
                 | [] \<Rightarrow> Fin 0)))"

subsection \<open>Numbers and strings as text\<close>

text \<open>
  \<^verbatim>\<open>String(n)\<close> and a template literal print an integer below \<open>10\<^sup>2\<^sup>1\<close> in decimal
  digits, and the non-finite numbers by name. The text of any other number is the shortest
  decimal, or exponent form, that reads back as the same floating-point number, which no
  model over the rationals can give: for those, \<open>decimalText\<close> stands in with the digits
  of the decimal expansion, cut after 16 places, and no statement below depends on it.
\<close>

definition digitChar :: "nat \<Rightarrow> char" where
  "digitChar d = ''0123456789abcdef'' ! d"

function natToString :: "nat \<Rightarrow> string" where
  "natToString n = (if n < 10 then [digitChar n] else natToString (n div 10) @ [digitChar (n mod 10)])"
  by pat_completeness auto

termination
  by (relation "measure id") auto

declare natToString.simps [simp del]

definition intToString :: "int \<Rightarrow> string" where
  "intToString i = (if i < 0 then CHR ''-'' # natToString (nat (- i)) else natToString (nat i))"

fun fractionDigits :: "nat \<Rightarrow> rat \<Rightarrow> string" where
  "fractionDigits 0 r = []"
| "fractionDigits (Suc n) r =
     (if r = 0 then []
      else (let d = nat \<lfloor>r * 10\<rfloor> in digitChar d # fractionDigits n (r * 10 - of_nat d)))"

definition decimalText :: "rat \<Rightarrow> string" where
  "decimalText r =
     (let a = \<bar>r\<bar>; w = \<lfloor>a\<rfloor>; f = fractionDigits 16 (a - of_int w)
      in (if r < 0 then ''-'' else []) @ intToString w @ (if f = [] then [] else CHR ''.'' # f))"

definition numberToString :: "number \<Rightarrow> string" where
  "numberToString n =
     (case n of
        NaN \<Rightarrow> ''NaN''
      | PInf \<Rightarrow> ''Infinity''
      | NInf \<Rightarrow> ''-Infinity''
      | Fin r \<Rightarrow>
          if r = of_int \<lfloor>r\<rfloor> \<and> \<bar>r\<bar> < 10 ^ 21 then intToString \<lfloor>r\<rfloor> else decimalText r)"

text \<open>\<^verbatim>\<open>String(value)\<close>.\<close>

fun toString :: "val \<Rightarrow> string" where
  "toString (VNum n) = numberToString n"
| "toString (VStr s) = s"

text \<open>\<^verbatim>\<open>JSON.stringify(value)\<close>: a non-finite number is \<^verbatim>\<open>null\<close>, a string is quoted.\<close>

definition jsonEscape :: "char \<Rightarrow> string" where
  "jsonEscape c =
     (let n = (of_char c :: nat) in
      if c = dquote then [CHR 0x5C, dquote]
      else if c = CHR 0x5C then [CHR 0x5C, CHR 0x5C]
      else if c = CHR 0x08 then [CHR 0x5C, CHR ''b'']
      else if c = CHR 0x0C then [CHR 0x5C, CHR ''f'']
      else if c = CHR 0x0A then [CHR 0x5C, CHR ''n'']
      else if c = CHR 0x0D then [CHR 0x5C, CHR ''r'']
      else if c = CHR 0x09 then [CHR 0x5C, CHR ''t'']
      else if n < 32 then [CHR 0x5C, CHR ''u'', CHR ''0'', CHR ''0'', digitChar (n div 16), digitChar (n mod 16)]
      else [c])"

fun jsonStringify :: "val \<Rightarrow> string" where
  "jsonStringify (VNum n) = (case n of Fin r \<Rightarrow> numberToString n | _ \<Rightarrow> ''null'')"
| "jsonStringify (VStr s) = dquote # concat (map jsonEscape s) @ [dquote]"

text \<open>The truth value of a value, as \<^verbatim>\<open>||\<close> and \<^verbatim>\<open>if\<close> read it.\<close>

fun truthy :: "val \<Rightarrow> bool" where
  "truthy (VNum (Fin r)) = (r \<noteq> 0)"
| "truthy (VNum NaN) = False"
| "truthy (VNum _) = True"
| "truthy (VStr s) = (s \<noteq> [])"

section \<open>The expression evaluator\<close>

text \<open>
  A failure is a thrown \<^verbatim>\<open>Error\<close> object; only its message is ever read.
\<close>

datatype error = Error (message: string)

definition nameError :: "string \<Rightarrow> error" where
  "nameError expr = Error (''NameError: name '' @ [squote] @ expr @ [squote] @ '' is not defined'')"

definition operandTypeError :: "char \<Rightarrow> error" where
  "operandTypeError c = Error (''TypeError: unsupported operand type(s) for '' @ [c])"

definition zeroDivisionError :: error where
  "zeroDivisionError = Error ''ZeroDivisionError: division by zero''"

text \<open>
  The two scans of \<^verbatim>\<open>evaluateExpression\<close> walk the text from its last character to its
  first, flip \<^verbatim>\<open>inString\<close> at every quote character, and stop at the first operator of
  the level met outside a string. \<open>scanOperator\<close> is that loop on the reversed text; the
  index it returns is the index \<^verbatim>\<open>i\<close> in the text.
\<close>

fun scanOperator :: "(char \<Rightarrow> bool) \<Rightarrow> bool \<Rightarrow> string \<Rightarrow> nat option" where
  "scanOperator isOp inString [] = None"
| "scanOperator isOp inString (c # cs) =
     (let inString' = (if c = dquote \<or> c = squote then \<not> inString else inString)
      in if \<not> inString' \<and> isOp c then Some (length cs)
         else scanOperator isOp inString' cs)"

definition lastOperator :: "(char \<Rightarrow> bool) \<Rightarrow> string \<Rightarrow> nat option" where
  "lastOperator isOp expr = scanOperator isOp False (rev expr)"

definition isAddSub :: "char \<Rightarrow> bool" where
  "isAddSub c \<longleftrightarrow> c = CHR ''+'' \<or> c = CHR ''-''"

definition isMulDiv :: "char \<Rightarrow> bool" where
  "isMulDiv c \<longleftrightarrow> c = CHR ''*'' \<or> c = CHR ''/''"

text \<open>Level 1 and level 2, once both operands have a value.\<close>

fun addSub :: "char \<Rightarrow> val \<Rightarrow> val \<Rightarrow> error + val" where
  "addSub c (VNum l) (VNum r) = Inr (VNum (if c = CHR ''+'' then add l r else subtract l r))"
| "addSub c _ _ = Inl (operandTypeError c)"

fun mulDiv :: "char \<Rightarrow> val \<Rightarrow> val \<Rightarrow> error + val" where
  "mulDiv c (VNum l) (VNum r) =
     (if c = CHR ''/'' then
        (if r = Fin 0 then Inl zeroDivisionError else Inr (VNum (divide l r)))
      else Inr (VNum (multiply l r)))"
| "mulDiv c _ _ = Inl (operandTypeError c)"

text \<open>
  The string literal test of \<^verbatim>\<open>parseFactor\<close>, and \<^verbatim>\<open>expr.slice(1, -1)\<close>.
\<close>

definition isStringLiteral :: "string \<Rightarrow> bool" where
  "isStringLiteral expr \<longleftrightarrow>
     (startsWith expr [dquote] \<and> endsWith expr [dquote])
     \<or> (startsWith expr [squote] \<and> endsWith expr [squote])"

definition sliceInner :: "string \<Rightarrow> string" where
  "sliceInner expr = butlast (tl expr)"

text \<open>
  \<^verbatim>\<open>(.*)\)$\<close> at the end of a pattern: the text left to match ends with a closing
  parenthesis, and what stands before it holds no line terminator.
\<close>

definition matchToClosingParen :: "string \<Rightarrow> string option" where
  "matchToClosingParen r =
     (if r \<noteq> [] \<and> last r = CHR '')'' \<and> \<not> list_ex isLineTerminator (butlast r)
      then Some (butlast r) else None)"

text \<open>\<^verbatim>\<open>expr.match(/^input\((.*)\)$/)\<close>: the first group of the match, if any.\<close>

definition inputCallMatch :: "string \<Rightarrow> string option" where
  "inputCallMatch expr =
     (if startsWith expr ''input('' then matchToClosingParen (drop 6 expr) else None)"

text \<open>
  \<^verbatim>\<open>evaluateExpression(expr, scope)\<close>. The scope is an object that the function receives
  by reference, so the model returns it next to the result: the second component is the
  scope as the call leaves it, and that is the scope the next call works on.
\<close>

function evaluateExpression :: "string \<Rightarrow> scope \<Rightarrow> (error + val) \<times> scope" where
  "evaluateExpression expr0 scope =
     (let expr = trim expr0 in
      case lastOperator isAddSub expr of
        Some i \<Rightarrow>
          (case evaluateExpression (take i expr) scope of
             (Inl e, scope1) \<Rightarrow> (Inl e, scope1)
           | (Inr left, scope1) \<Rightarrow>
               (case evaluateExpression (drop (Suc i) expr) scope1 of
                  (Inl e, scope2) \<Rightarrow> (Inl e, scope2)
                | (Inr right, scope2) \<Rightarrow> (addSub (expr ! i) left right, scope2)))
      | None \<Rightarrow>
          (case lastOperator isMulDiv expr of
             Some i \<Rightarrow>
               (case evaluateExpression (take i expr) scope of
                  (Inl e, scope1) \<Rightarrow> (Inl e, scope1)
                | (Inr left, scope1) \<Rightarrow>
                    (case evaluateExpression (drop (Suc i) expr) scope1 of
                       (Inl e, scope2) \<Rightarrow> (Inl e, scope2)
                     | (Inr right, scope2) \<Rightarrow> (mulDiv (expr ! i) left right, scope2)))
           | None \<Rightarrow>
               (if isStringLiteral expr then (Inr (VStr (sliceInner expr)), scope)
                else if \<not> isNaN (Number expr) then (Inr (VNum (Number expr)), scope)
                else (case scope expr of
                        Some v \<Rightarrow> (Inr v, scope)
                      | None \<Rightarrow>
                          (case inputCallMatch expr of
                             Some inner \<Rightarrow>
                               (let promptExpr = trim inner in
                                if promptExpr \<noteq> [] then evaluateExpression promptExpr scope
                                else (Inr (VStr []), scope))
                           | None \<Rightarrow> (Inl (nameError expr), scope))))))"
  by pat_completeness auto

termination evaluateExpression
proof -
  have trimmed: "length (trim s) \<le> length s" for s
  proof -
    have "length (trim s) \<le> length (dropWhile isSpace s)"
      unfolding trim_def by (metis length_dropWhile_le length_rev)
    also have "\<dots> \<le> length s"
      by (rule length_dropWhile_le)
    finally show ?thesis .
  qed
  have scan: "scanOperator isOp b cs = Some i \<Longrightarrow> i < length cs" for isOp b cs i
    by (induction cs arbitrary: b) (auto simp: Let_def less_Suc_eq split: if_splits)
  have operator: "i < length expr0" and rest: "length (trim expr0) - Suc i < length expr0"
    if "lastOperator isOp (trim expr0) = Some i" for isOp expr0 i
    using scan [of isOp False "rev (trim expr0)" i] that trimmed [of expr0]
    by (simp_all add: lastOperator_def)
  have prompt: "length (trim inner) < length expr0"
    if "inputCallMatch (trim expr0) = Some inner" for expr0 inner
  proof -
    from that have "length inner < length (trim expr0)"
      by (auto simp: inputCallMatch_def matchToClosingParen_def split: if_splits)
    with trimmed [of expr0] trimmed [of inner] show ?thesis by simp
  qed
  show ?thesis
    by (relation "measure (\<lambda>(expr, scope). length expr)")
       (auto dest: operator rest prompt)
qed

declare evaluateExpression.simps [simp del]

section \<open>Statement shapes\<close>

text \<open>
  The four regular expressions of \<^verbatim>\<open>getExecutionTrace\<close>, each as the function from the
  trimmed line to the groups of its match. Each quantifier over \<^verbatim>\<open>\w\<close> or \<^verbatim>\<open>\s\<close> is followed
  by a character that it cannot itself match, or by \<^verbatim>\<open>(.*)$\<close>, which takes whatever the
  greedy \<^verbatim>\<open>\s*\<close> has left; and \<^verbatim>\<open>(.*)\)$\<close> ends at the last character of the line. So the
  greedy match gives the groups.
\<close>

text \<open>\<^verbatim>\<open>/^(\w+)\s*=\s*input\((.*)\)$/\<close>\<close>

definition inputMatch :: "string \<Rightarrow> (string \<times> string) option" where
  "inputMatch line =
     (let varName = takeWhile isWord line;
          r1 = dropWhile isSpace (dropWhile isWord line)
      in if varName \<noteq> [] \<and> startsWith r1 ''='' then
           (let r2 = dropWhile isSpace (tl r1)
            in if startsWith r2 ''input('' then
                 (case matchToClosingParen (drop 6 r2) of
                    Some promptExpr \<Rightarrow> Some (varName, promptExpr)
                  | None \<Rightarrow> None)
               else None)
         else None)"

text \<open>\<^verbatim>\<open>/^for\s+(\w+)\s+in\s+range\((\w+)\):$/\<close>\<close>

definition forLoopMatch :: "string \<Rightarrow> (string \<times> string) option" where
  "forLoopMatch line =
     (if startsWith line ''for'' then
        (let r0 = drop 3 line; r1 = dropWhile isSpace r0;
             loopVar = takeWhile isWord r1; r2 = dropWhile isWord r1;
             r3 = dropWhile isSpace r2
         in if length r1 < length r0 \<and> loopVar \<noteq> [] \<and> length r3 < length r2
               \<and> startsWith r3 ''in'' then
              (let r4 = drop 2 r3; r5 = dropWhile isSpace r4
               in if length r5 < length r4 \<and> startsWith r5 ''range('' then
                    (let r6 = drop 6 r5; loopLimitExpr = takeWhile isWord r6
                     in if loopLimitExpr \<noteq> [] \<and> dropWhile isWord r6 = ''):''
                        then Some (loopVar, loopLimitExpr) else None)
                  else None)
            else None)
      else None)"

text \<open>\<^verbatim>\<open>/^(\w+)\s*=\s*(.*)$/\<close>\<close>

definition assignmentMatch :: "string \<Rightarrow> (string \<times> string) option" where
  "assignmentMatch line =
     (let varName = takeWhile isWord line;
          r1 = dropWhile isSpace (dropWhile isWord line)
      in if varName \<noteq> [] \<and> startsWith r1 ''='' then
           (let valueExpr = dropWhile isSpace (tl r1)
            in if list_ex isLineTerminator valueExpr then None
               else Some (varName, valueExpr))
         else None)"

text \<open>\<^verbatim>\<open>/^print\((.*)\)$/\<close>\<close>

definition printMatch :: "string \<Rightarrow> string option" where
  "printMatch line =
     (if startsWith line ''print('' then matchToClosingParen (drop 6 line) else None)"

section \<open>The trace builder\<close>

text \<open>
  A step of the trace. An optional flag that is absent reads as false. The description
  holds whatever value the program put there: the prompt of an input statement is the value
  of an expression, so it may be a number.
\<close>

record ExecutionStep =
  lineNumber :: nat
  description :: val
  variables :: scope
  "output" :: "string option"
  isError :: bool
  requiresInput :: bool
  inputVariable :: "string option"

record ExecutorResponse =
  trace :: "ExecutionStep list"
  error :: "string option"

text \<open>The provisional step pushed for every line that is executed.\<close>

definition executingStep :: "nat \<Rightarrow> string \<Rightarrow> scope \<Rightarrow> ExecutionStep" where
  "executingStep n trimmedLine scope =
     \<lparr>lineNumber = n, description = VStr (''Executing line: '' @ trimmedLine),
      variables = scope, output = None, isError = False, requiresInput = False,
      inputVariable = None\<rparr>"

text \<open>
  The \<^verbatim>\<open>catch\<close> block: the last step of the trace is popped and the error step is
  pushed, with the variables of the popped step (or the scope, had there been none).
\<close>

definition catchError :: "error \<Rightarrow> nat \<Rightarrow> scope \<Rightarrow> ExecutionStep list \<Rightarrow> ExecutorResponse" where
  "catchError e n scope tr =
     (let errorMessage = message e
      in \<lparr>trace = butlast tr @
            [\<lparr>lineNumber = n, description = VStr errorMessage,
              variables = (if tr = [] then scope else variables (last tr)),
              output = None, isError = True, requiresInput = False, inputVariable = None\<rparr>],
          error = Some errorMessage\<rparr>)"

text \<open>The provided input, coerced to a number when the whole text reads as one.\<close>

definition coerceInput :: "string \<Rightarrow> val" where
  "coerceInput v = (if \<not> isNaN (Number v) \<and> trim v \<noteq> [] then VNum (Number v) else VStr v)"

definition assignInput :: "(string \<times> string) option \<Rightarrow> scope \<Rightarrow> scope" where
  "assignInput providedInput scope =
     (case providedInput of
        None \<Rightarrow> scope
      | Some (variable, v) \<Rightarrow> scope(variable \<mapsto> coerceInput v))"

text \<open>
  The \<^verbatim>\<open>while\<close> loop that collects the body of a loop: \<open>j\<close> is the index of the first
  line of \<open>rest\<close>. It returns the body, each line with its index, and the final \<open>j\<close>.
\<close>

definition indentOf :: "string \<Rightarrow> nat" where
  "indentOf line = length (takeWhile isSpace line)"

fun collectBody :: "nat \<Rightarrow> nat \<Rightarrow> string list \<Rightarrow> (string \<times> nat) list \<times> nat" where
  "collectBody baseIndent j [] = ([], j)"
| "collectBody baseIndent j (nextLine # rest) =
     (if trim nextLine = [] then collectBody baseIndent (Suc j) rest
      else if baseIndent < indentOf nextLine then
        (let (loopBody, j') = collectBody baseIndent (Suc j) rest
         in ((nextLine, j) # loopBody, j'))
      else ([], j))"

text \<open>
  What the \<^verbatim>\<open>try\<close> block of a loop header hands to the code after it: the scope and the
  trace as they are when the iterations are over, or when one of them throws.
\<close>

datatype outcome =
  Completed scope "ExecutionStep list"
| Threw error scope "ExecutionStep list"

text \<open>
  \<^verbatim>\<open>loopExecutor.trace.forEach(...)\<close>: every step of the sub-trace is pushed with its line
  number mapped through \<^verbatim>\<open>loopBody\<close>, and the scope becomes that step's variables. Reading
  \<^verbatim>\<open>loopBody\<close> outside its range gives \<^verbatim>\<open>undefined\<close>, whose \<^verbatim>\<open>index\<close> is a thrown
  TypeError.
\<close>

definition undefinedIndexError :: error where
  "undefinedIndexError =
     Error (''Cannot read properties of undefined (reading '' @ [squote] @ ''index'' @ [squote] @ '')'')"

fun pushRemapped ::
  "(string \<times> nat) list \<Rightarrow> ExecutionStep list \<Rightarrow> scope \<Rightarrow> ExecutionStep list \<Rightarrow> outcome" where
  "pushRemapped loopBody [] scope tr = Completed scope tr"
| "pushRemapped loopBody (step # steps) scope tr =
     (if 1 \<le> lineNumber step \<and> lineNumber step - 1 < length loopBody then
        pushRemapped loopBody steps (variables step)
          (tr @ [step\<lparr>lineNumber := snd (loopBody ! (lineNumber step - 1)) + 1\<rparr>])
      else Threw undefinedIndexError scope tr)"

text \<open>
  \<^verbatim>\<open>if (loopExecutor.error) throw new Error(loopExecutor.error)\<close>: a message that is
  \<^verbatim>\<open>null\<close> or empty throws nothing.
\<close>

definition thrownError :: "string option \<Rightarrow> error option" where
  "thrownError err =
     (case err of
        None \<Rightarrow> None
      | Some msg \<Rightarrow> if msg = [] then None else Some (Error msg))"

definition iterationStep :: "nat \<Rightarrow> string \<Rightarrow> nat \<Rightarrow> scope \<Rightarrow> ExecutionStep" where
  "iterationStep n loopVar k scope =
     \<lparr>lineNumber = n,
      description = VStr (''Loop iteration '' @ natToString (k + 1) @ ''. Set '' @ [squote] @ loopVar
        @ [squote] @ '' to '' @ natToString k @ ''.''),
      variables = scope, output = None, isError = False, requiresInput = False,
      inputVariable = None\<rparr>"

definition rangeTypeError :: "string \<Rightarrow> error" where
  "rangeTypeError loopLimitExpr =
     Error (''TypeError: '' @ [squote] @ loopLimitExpr @ [squote] @ '' does not evaluate to an integer'')"

text \<open>
  The body of the \<^verbatim>\<open>try\<close> block for one line, up to the point where it leaves the
  block: it returns from the function (the pause, or the \<^verbatim>\<open>catch\<close> block after a throw),
  it goes on with the next line (\<^verbatim>\<open>continue\<close>), or it has read a loop header whose limit
  is a number and is about to iterate.
\<close>

datatype action =
  Return ExecutorResponse
| Continue scope "ExecutionStep list"
| Iterate string number scope "ExecutionStep list"

text \<open>The input statement: \<open>g\<close> is the second group of the match.\<close>

definition inputStatement ::
  "nat \<Rightarrow> string \<Rightarrow> string \<Rightarrow> scope \<Rightarrow> ExecutionStep list \<Rightarrow> ExecutionStep \<Rightarrow> action" where
  "inputStatement n varName g scope tr step =
     (let promptExpr = trim g
      in case (if promptExpr \<noteq> [] then evaluateExpression promptExpr scope
               else (Inr (VStr []), scope)) of
           (Inl e, scope1) \<Rightarrow> Return (catchError e n scope1 (tr @ [step]))
         | (Inr prompt, scope1) \<Rightarrow>
             Return \<lparr>trace = tr @
                       [step\<lparr>description :=
                               (if truthy prompt then prompt else VStr ''Awaiting user input...''),
                             requiresInput := True,
                             inputVariable := Some varName\<rparr>],
                     error = None\<rparr>)"

text \<open>The loop header, up to the loop-start description.\<close>

definition forStatement ::
  "nat \<Rightarrow> string \<Rightarrow> string \<Rightarrow> scope \<Rightarrow> ExecutionStep list \<Rightarrow> ExecutionStep \<Rightarrow> action" where
  "forStatement n loopVar loopLimitExpr scope tr step =
     (case evaluateExpression loopLimitExpr scope of
        (Inl e, scope1) \<Rightarrow> Return (catchError e n scope1 (tr @ [step]))
      | (Inr (VStr s), scope1) \<Rightarrow>
          Return (catchError (rangeTypeError loopLimitExpr) n scope1 (tr @ [step]))
      | (Inr (VNum loopLimit), scope1) \<Rightarrow>
          Iterate loopVar loopLimit scope1
            (tr @ [step\<lparr>description :=
                     VStr (''Starting a loop that will run '' @ numberToString loopLimit
                       @ '' times.'')\<rparr>]))"

definition assignmentStatement ::
  "nat \<Rightarrow> string \<Rightarrow> string \<Rightarrow> scope \<Rightarrow> ExecutionStep list \<Rightarrow> ExecutionStep \<Rightarrow> action" where
  "assignmentStatement n varName valueExpr scope tr step =
     (if valueExpr \<noteq> [] then
        (case evaluateExpression valueExpr scope of
           (Inl e, scope1) \<Rightarrow> Return (catchError e n scope1 (tr @ [step]))
         | (Inr v, scope1) \<Rightarrow>
             (let scope2 = scope1(varName \<mapsto> v)
              in Continue scope2
                   (tr @ [step\<lparr>description :=
                            VStr (''Assign '' @ jsonStringify v @ '' to '' @ [squote] @ varName
                              @ [squote]),
                          variables := scope2\<rparr>])))
      else Return (catchError (Error ''SyntaxError: invalid syntax'') n scope (tr @ [step])))"

definition printStatement ::
  "nat \<Rightarrow> string \<Rightarrow> scope \<Rightarrow> ExecutionStep list \<Rightarrow> ExecutionStep \<Rightarrow> action" where
  "printStatement n g scope tr step =
     (case evaluateExpression g scope of
        (Inl e, scope1) \<Rightarrow> Return (catchError e n scope1 (tr @ [step]))
      | (Inr v, scope1) \<Rightarrow>
          Continue scope1
            (tr @ [step\<lparr>description := VStr ''Printing output'', output := Some (toString v)\<rparr>]))"

text \<open>
  The statement shapes in the order the code tries them, after the provisional step
  has been pushed.
\<close>

definition executeStatement ::
  "nat \<Rightarrow> string \<Rightarrow> scope \<Rightarrow> ExecutionStep list \<Rightarrow> action" where
  "executeStatement n trimmedLine scope tr =
     (let step = executingStep n trimmedLine scope
      in case inputMatch trimmedLine of
           Some (varName, g) \<Rightarrow> inputStatement n varName g scope tr step
         | None \<Rightarrow>
             (case forLoopMatch trimmedLine of
                Some (loopVar, loopLimitExpr) \<Rightarrow> forStatement n loopVar loopLimitExpr scope tr step
              | None \<Rightarrow>
                  (case assignmentMatch trimmedLine of
                     Some (varName, valueExpr) \<Rightarrow>
                       assignmentStatement n varName valueExpr scope tr step
                   | None \<Rightarrow>
                       (case printMatch trimmedLine of
                          Some g \<Rightarrow> printStatement n g scope tr step
                        | None \<Rightarrow>
                            Return (catchError
                              (Error ''SyntaxError: invalid or unsupported syntax'') n scope
                              (tr @ [step]))))))"

text \<open>
  \<^verbatim>\<open>getExecutionTrace(code, initialScope, startLine, providedInput)\<close>. A loop over
  \<^verbatim>\<open>range(Infinity)\<close> never ends, so the three functions take fuel, one unit for every
  line visited, every iteration and every call; \<open>None\<close> is a run that has not returned
  within the fuel. \<open>runLines\<close> is the \<^verbatim>\<open>for\<close> loop over the lines from index \<open>i\<close>,
  \<open>runIterations\<close> the \<^verbatim>\<open>for\<close> loop over \<open>k\<close> with the recursive call on the loop body.
  The start line is an index into the lines, a natural number.
\<close>

function (sequential) getExecutionTrace ::
    "nat \<Rightarrow> string \<Rightarrow> scope \<Rightarrow> nat \<Rightarrow> (string \<times> string) option \<Rightarrow> ExecutorResponse option"
  and runLines ::
    "nat \<Rightarrow> string list \<Rightarrow> nat \<Rightarrow> scope \<Rightarrow> ExecutionStep list \<Rightarrow> ExecutorResponse option"
  and runIterations ::
    "nat \<Rightarrow> (string \<times> nat) list \<Rightarrow> string \<Rightarrow> number \<Rightarrow> nat \<Rightarrow> nat \<Rightarrow> scope
       \<Rightarrow> ExecutionStep list \<Rightarrow> outcome option"
where
  "getExecutionTrace 0 code initialScope startLine providedInput = None"
| "getExecutionTrace (Suc fuel) code initialScope startLine providedInput =
     runLines fuel (splitLines code) startLine (assignInput providedInput initialScope) []"
| "runLines 0 lines i scope tr = None"
| "runLines (Suc fuel) lines i scope tr =
     (if \<not> i < length lines then Some \<lparr>trace = tr, error = None\<rparr>
      else if trim (lines ! i) = [] \<or> startsWith (trim (lines ! i)) ''#'' then
        runLines fuel lines (i + 1) scope tr
      else
        (case executeStatement (i + 1) (trim (lines ! i)) scope tr of
           Return response \<Rightarrow> Some response
         | Continue scope1 tr1 \<Rightarrow> runLines fuel lines (i + 1) scope1 tr1
         | Iterate loopVar loopLimit scope1 tr1 \<Rightarrow>
             (case runIterations fuel
                     (fst (collectBody (indentOf (lines ! i)) (i + 1) (drop (i + 1) lines)))
                     loopVar loopLimit (i + 1) 0 scope1 tr1 of
                None \<Rightarrow> None
              | Some (Threw e scope2 tr2) \<Rightarrow> Some (catchError e (i + 1) scope2 tr2)
              | Some (Completed scope2 tr2) \<Rightarrow>
                  runLines fuel lines
                    (snd (collectBody (indentOf (lines ! i)) (i + 1) (drop (i + 1) lines)))
                    scope2 tr2)))"
| "runIterations 0 loopBody loopVar loopLimit n k scope tr = None"
| "runIterations (Suc fuel) loopBody loopVar loopLimit n k scope tr =
     (if \<not> lessThanLimit k loopLimit then Some (Completed scope tr)
      else
        (case getExecutionTrace fuel (joinLines (map fst loopBody))
                (scope(loopVar \<mapsto> VNum (Fin (of_nat k)))) 0 None of
           None \<Rightarrow> None
         | Some loopExecutor \<Rightarrow>
             (case pushRemapped loopBody (trace loopExecutor)
                     (scope(loopVar \<mapsto> VNum (Fin (of_nat k))))
                     (tr @ [iterationStep n loopVar k (scope(loopVar \<mapsto> VNum (Fin (of_nat k))))]) of
                Threw e scope2 tr2 \<Rightarrow> Some (Threw e scope2 tr2)
              | Completed scope2 tr2 \<Rightarrow>
                  (case thrownError (error loopExecutor) of
                     Some e \<Rightarrow> Some (Threw e scope2 tr2)
                   | None \<Rightarrow>
                       runIterations fuel loopBody loopVar loopLimit n (k + 1) scope2 tr2))))"
  by pat_completeness auto

termination getExecutionTrace
  by (relation "measure (\<lambda>x. case x of
         Inl (fuel, code, initialScope, startLine, providedInput) \<Rightarrow> fuel
       | Inr (Inl (fuel, lines, i, scope, tr)) \<Rightarrow> fuel
       | Inr (Inr (fuel, loopBody, loopVar, loopLimit, n, k, scope, tr)) \<Rightarrow> fuel)") auto

declare getExecutionTrace.simps [simp del] runLines.simps [simp del] runIterations.simps [simp del]

section \<open>What the theorems speak of\<close>

subsection \<open>Steps and traces\<close>

text \<open>A step with no flag and no output.\<close>

definition plainStep :: "nat \<Rightarrow> string \<Rightarrow> scope \<Rightarrow> ExecutionStep" where
  "plainStep n d vars =
     \<lparr>lineNumber = n, description = VStr d, variables = vars, output = None, isError = False,
      requiresInput = False, inputVariable = None\<rparr>"

text \<open>The error step for a message.\<close>

definition errorStep :: "nat \<Rightarrow> string \<Rightarrow> scope \<Rightarrow> ExecutionStep" where
  "errorStep n msg vars = (plainStep n msg vars)\<lparr>isError := True\<rparr>"

text \<open>
  The scope a run holds after the steps \<open>tr\<close>, started from \<open>scope0\<close>: the variables of the
  last step, or \<open>scope0\<close> when there is no step yet.
\<close>

definition scopeAfter :: "scope \<Rightarrow> ExecutionStep list \<Rightarrow> scope" where
  "scopeAfter scope0 tr = (if tr = [] then scope0 else variables (last tr))"

text \<open>Steps that are no error steps, on lines 1 to \<open>L\<close>.\<close>

definition sound :: "nat \<Rightarrow> ExecutionStep list \<Rightarrow> bool" where
  "sound L tr \<longleftrightarrow> list_all (\<lambda>s. \<not> isError s \<and> 1 \<le> lineNumber s \<and> lineNumber s \<le> L) tr"

text \<open>A trace that ends in the error step for the message \<open>msg\<close>.\<close>

definition failed :: "nat \<Rightarrow> scope \<Rightarrow> ExecutionStep list \<Rightarrow> string \<Rightarrow> bool" where
  "failed L scope0 tr msg \<longleftrightarrow>
     msg \<noteq> [] \<and> tr \<noteq> [] \<and> sound L (butlast tr) \<and> isError (last tr)
     \<and> \<not> requiresInput (last tr) \<and> description (last tr) = VStr msg
     \<and> 1 \<le> lineNumber (last tr) \<and> lineNumber (last tr) \<le> L
     \<and> variables (last tr) = scopeAfter scope0 (butlast tr)"

definition wellFormed :: "nat \<Rightarrow> scope \<Rightarrow> ExecutorResponse \<Rightarrow> bool" where
  "wellFormed L scope0 r =
     (case error r of
        None \<Rightarrow> sound L (trace r)
      | Some msg \<Rightarrow> failed L scope0 (trace r) msg)"

definition noLF :: "string list \<Rightarrow> bool" where
  "noLF ls \<longleftrightarrow> list_all (\<lambda>l. CHR 0x0A \<notin> set l) ls"

definition remap :: "(string \<times> nat) list \<Rightarrow> ExecutionStep \<Rightarrow> ExecutionStep" where
  "remap loopBody s = s\<lparr>lineNumber := snd (loopBody ! (lineNumber s - 1)) + 1\<rparr>"

definition inRange :: "nat \<Rightarrow> ExecutionStep list \<Rightarrow> bool" where
  "inRange L steps \<longleftrightarrow> list_all (\<lambda>s. 1 \<le> lineNumber s \<and> lineNumber s \<le> L) steps"

text \<open>What the loop over the iterations leaves behind.\<close>

definition iterated :: "nat \<Rightarrow> scope \<Rightarrow> nat \<Rightarrow> outcome \<Rightarrow> bool" where
  "iterated L scope0 n out =
     (case out of
        Completed scope1 tr1 \<Rightarrow> sound L tr1 \<and> scope1 = scopeAfter scope0 tr1
      | Threw e scope1 tr1 \<Rightarrow> wellFormed L scope0 (catchError e n scope1 tr1))"


subsection \<open>Texts\<close>





subsection \<open>Example programs\<close>

text \<open>\<^verbatim>\<open>age = input("Age: ")\<close>, \<^verbatim>\<open>print(age)\<close>\<close>

definition ageProgram :: string where
  "ageProgram =
     ''age = input('' @ [dquote] @ ''Age: '' @ [dquote] @ '')'' @ [CHR 0x0A] @ ''print(age)''"

text \<open>\<^verbatim>\<open>count = 0\<close>, \<^verbatim>\<open>for i in range(3):\<close>, \<^verbatim>\<open>  count = count + 1\<close>\<close>

definition loopProgram :: string where
  "loopProgram =
     ''count = 0'' @ [CHR 0x0A] @ ''for i in range(3):'' @ [CHR 0x0A] @ ''  count = count + 1''"

text \<open>\<^verbatim>\<open>for i in range(2):\<close>, \<^verbatim>\<open>  x = input()\<close>\<close>

definition inputLoopProgram :: string where
  "inputLoopProgram = ''for i in range(2):'' @ [CHR 0x0A] @ ''  x = input()''"

text \<open>\<^verbatim>\<open>for i in range(1):\<close>, \<^verbatim>\<open>  print(x)\<close>\<close>

definition failingLoopProgram :: string where
  "failingLoopProgram = ''for i in range(1):'' @ [CHR 0x0A] @ ''  print(x)''"


section \<open>The evaluator: scope, precedence, the empty operand\<close>

lemma binary_scope:
  assumes l: "snd (evaluateExpression a scope) = scope"
    and r: "\<And>left. fst (evaluateExpression a scope) = Inr left \<Longrightarrow> snd (evaluateExpression b scope) = scope"
  shows "snd (case evaluateExpression a scope of
             (Inl e, scope1) \<Rightarrow> (Inl e, scope1)
           | (Inr left, scope1) \<Rightarrow>
               (case evaluateExpression b scope1 of
                  (Inl e, scope2) \<Rightarrow> (Inl e, scope2)
                | (Inr right, scope2) \<Rightarrow> (f left right, scope2))) = scope"
proof -
  obtain r1 s1 where a: "evaluateExpression a scope = (r1, s1)"
    by (cases "evaluateExpression a scope")
  with l have s1: "s1 = scope" by simp
  show ?thesis
  proof (cases r1)
    case (Inl e)
    with a s1 show ?thesis by simp
  next
    case (Inr left)
    obtain r2 s2 where b: "evaluateExpression b scope = (r2, s2)"
      by (cases "evaluateExpression b scope")
    from r [of left] a Inr b have "s2 = scope" by simp
    with a s1 Inr b show ?thesis by (cases r2) simp_all
  qed
qed

lemma evaluateExpression_scope: "snd (evaluateExpression expr scope) = scope"
proof (induction expr scope rule: evaluateExpression.induct)
  case (1 expr0 scope)
  define expr where "expr = trim expr0"
  show ?case
  proof (cases "lastOperator isAddSub expr")
    case (Some i)
    have l: "snd (evaluateExpression (take i expr) scope) = scope"
      using "1.IH"(4) [OF expr_def Some] .
    have r: "snd (evaluateExpression (drop (Suc i) expr) scope) = scope"
      if "fst (evaluateExpression (take i expr) scope) = Inr left" for left
    proof -
      from that l have "(Inr left, scope) = evaluateExpression (take i expr) scope"
        by (metis prod.collapse)
      from "1.IH"(5) [OF expr_def Some this refl] show ?thesis .
    qed
    show ?thesis
      by (subst evaluateExpression.simps)
         (simp only: Let_def expr_def [symmetric] Some option.case binary_scope [OF l r])
  next
    case None
    note addSub = None
    show ?thesis
    proof (cases "lastOperator isMulDiv expr")
      case (Some i)
      have l: "snd (evaluateExpression (take i expr) scope) = scope"
        using "1.IH"(2) [OF expr_def addSub Some] .
      have r: "snd (evaluateExpression (drop (Suc i) expr) scope) = scope"
        if "fst (evaluateExpression (take i expr) scope) = Inr left" for left
      proof -
        from that l have "(Inr left, scope) = evaluateExpression (take i expr) scope"
          by (metis prod.collapse)
        from "1.IH"(3) [OF expr_def addSub Some this refl] show ?thesis .
      qed
      show ?thesis
        by (subst evaluateExpression.simps)
           (simp only: Let_def expr_def [symmetric] addSub Some option.case binary_scope [OF l r])
    next
      case None
      have p: "snd (evaluateExpression (trim inner) scope) = scope"
        if "\<not> isStringLiteral expr" "isNaN (Number expr)" "scope expr = None"
           "inputCallMatch expr = Some inner" "trim inner \<noteq> []" for inner
        using "1.IH"(1) [OF expr_def addSub None] that by simp
      show ?thesis
        apply (subst evaluateExpression.simps)
        apply (simp only: Let_def expr_def [symmetric] addSub None option.case)
        apply (auto simp: p split: option.splits)
        done
    qed
  qed
qed

lemma evaluateExpression_pair:
  "evaluateExpression expr scope = (fst (evaluateExpression expr scope), scope)"
  by (metis evaluateExpression_scope prod.collapse)

text \<open>
  Claim C9. The evaluator never changes the scope: whatever the expression and the scope,
  and whether the call gives a value or fails, the scope after the call is the scope
  before it.
\<close>

theorem C9_evaluator_leaves_scope:
  "snd (evaluateExpression expr scope) = scope"
  by (rule evaluateExpression_scope)

text \<open>
  Claim C5. Against the empty scope, \<^verbatim>\<open>3 + 4 * 2\<close> is 11 (the product binds tighter)
  and \<^verbatim>\<open>10 - 3 - 2\<close> is 5 (the chain associates to the left, although the scan finds
  the rightmost operator first).
\<close>

theorem C5_precedence_and_left_associativity:
  "fst (evaluateExpression ''3 + 4 * 2'' Map.empty) = Inr (VNum (Fin 11))
   \<and> fst (evaluateExpression ''10 - 3 - 2'' Map.empty) = Inr (VNum (Fin 5))"
  by code_simp

section \<open>Invariants of a run\<close>

subsection \<open>Lines\<close>

lemma splitLines_nonempty: "splitLines s \<noteq> []"
  by (induction s) (auto split: list.splits)

lemma noLF_splitLines: "noLF (splitLines s)"
  by (induction s) (auto simp: noLF_def split: list.splits)

lemma splitLines_line: "CHR 0x0A \<notin> set l \<Longrightarrow> splitLines (l @ CHR 0x0A # s) = l # splitLines s"
  by (induction l) (auto split: list.splits simp: splitLines_nonempty)

lemma splitLines_single: "CHR 0x0A \<notin> set l \<Longrightarrow> splitLines l = [l]"
  by (induction l) (auto split: list.splits)

lemma splitLines_joinLines: "ls \<noteq> [] \<Longrightarrow> noLF ls \<Longrightarrow> splitLines (joinLines ls) = ls"
proof (induction ls rule: joinLines.induct)
  case 1
  then show ?case by simp
next
  case (2 l)
  then show ?case by (simp add: noLF_def splitLines_single)
next
  case (3 l v va)
  then show ?case by (simp add: noLF_def splitLines_line)
qed

subsection \<open>The body of a loop\<close>

lemma collectBody_index:
  "(l, j) \<in> set (fst (collectBody b j0 rest)) \<Longrightarrow> j0 \<le> j \<and> j < j0 + length rest \<and> l = rest ! (j - j0)"
proof (induction rest arbitrary: j0)
  case Nil
  then show ?case by simp
next
  case (Cons a rest)
  show ?case
  proof (cases "trim a = []")
    case True
    with Cons.prems have "(l, j) \<in> set (fst (collectBody b (Suc j0) rest))" by simp
    from Cons.IH [OF this] show ?thesis by (auto simp: nth_Cons')
  next
    case False
    show ?thesis
    proof (cases "b < indentOf a")
      case True
      with False Cons.prems
      have "(l, j) = (a, j0) \<or> (l, j) \<in> set (fst (collectBody b (Suc j0) rest))"
        by (auto split: prod.splits)
      then show ?thesis
      proof
        assume "(l, j) = (a, j0)"
        then show ?thesis by simp
      next
        assume "(l, j) \<in> set (fst (collectBody b (Suc j0) rest))"
        from Cons.IH [OF this] show ?thesis by (auto simp: nth_Cons')
      qed
    next
      case b: False
      with False Cons.prems show ?thesis by simp
    qed
  qed
qed

lemma collectBody_lines:
  assumes "noLF ls" and "i < length ls"
  shows "noLF (map fst (fst (collectBody b (Suc i) (drop (Suc i) ls))))"
    and "\<forall>(l, j) \<in> set (fst (collectBody b (Suc i) (drop (Suc i) ls))). j < length ls"
proof -
  let ?body = "fst (collectBody b (Suc i) (drop (Suc i) ls))"
  have *: "Suc i \<le> j \<and> j < length ls \<and> l = ls ! j" if "(l, j) \<in> set ?body" for l j
    using collectBody_index [OF that] assms(2) by auto
  show "noLF (map fst ?body)"
    unfolding noLF_def list_all_iff
  proof
    fix l
    assume "l \<in> set (map fst ?body)"
    then obtain j where "(l, j) \<in> set ?body" by auto
    from * [OF this] have "l \<in> set ls" by simp
    with assms(1) show "CHR 0x0A \<notin> set l"
      by (simp add: noLF_def list_all_iff)
  qed
  show "\<forall>(l, j) \<in> set ?body. j < length ls"
    using * by auto
qed

subsection \<open>Error messages\<close>

lemma addSub_message: "addSub c l r = Inl e \<Longrightarrow> message e \<noteq> []"
  by (cases l; cases r) (auto simp: operandTypeError_def)

lemma mulDiv_message: "mulDiv c l r = Inl e \<Longrightarrow> message e \<noteq> []"
  by (cases l; cases r) (auto simp: operandTypeError_def zeroDivisionError_def split: if_splits)

lemma binary_message:
  assumes l: "\<And>e. fst (evaluateExpression a scope) = Inl e \<Longrightarrow> message e \<noteq> []"
    and r: "\<And>left e. fst (evaluateExpression a scope) = Inr left \<Longrightarrow>
              fst (evaluateExpression b scope) = Inl e \<Longrightarrow> message e \<noteq> []"
    and f: "\<And>x y e. f x y = Inl e \<Longrightarrow> message e \<noteq> []"
    and res: "fst (case evaluateExpression a scope of
             (Inl e, scope1) \<Rightarrow> (Inl e, scope1)
           | (Inr left, scope1) \<Rightarrow>
               (case evaluateExpression b scope1 of
                  (Inl e, scope2) \<Rightarrow> (Inl e, scope2)
                | (Inr right, scope2) \<Rightarrow> (f left right, scope2))) = Inl e"
  shows "message e \<noteq> []"
proof -
  obtain r1 where a: "evaluateExpression a scope = (r1, scope)"
    using evaluateExpression_pair by blast
  obtain r2 where b: "evaluateExpression b scope = (r2, scope)"
    using evaluateExpression_pair by blast
  show ?thesis
  proof (cases r1)
    case (Inl e1)
    with a res l [of e1] show ?thesis by simp
  next
    case (Inr left)
    show ?thesis
    proof (cases r2)
      case (Inl e2)
      with a b Inr res r [of left e2] show ?thesis by simp
    next
      case r2: (Inr right)
      with a b Inr res f [of left right e] show ?thesis by simp
    qed
  qed
qed

lemma evaluateExpression_message:
  "fst (evaluateExpression expr scope) = Inl e \<Longrightarrow> message e \<noteq> []"
proof (induction expr scope arbitrary: e rule: evaluateExpression.induct)
  case (1 expr0 scope)
  define expr where "expr = trim expr0"
  note res = "1.prems"
  show ?case
  proof (cases "lastOperator isAddSub expr")
    case (Some i)
    have l: "message e \<noteq> []" if "fst (evaluateExpression (take i expr) scope) = Inl e" for e
      using "1.IH"(4) [OF expr_def Some that] .
    have r: "message e \<noteq> []"
      if "fst (evaluateExpression (take i expr) scope) = Inr left"
        and "fst (evaluateExpression (drop (Suc i) expr) scope) = Inl e" for left e
    proof -
      from that(1) have "(Inr left, scope) = evaluateExpression (take i expr) scope"
        by (metis evaluateExpression_pair)
      from "1.IH"(5) [OF expr_def Some this refl that(2)] show ?thesis .
    qed
    from res have "fst (case evaluateExpression (take i expr) scope of
             (Inl e, scope1) \<Rightarrow> (Inl e, scope1)
           | (Inr left, scope1) \<Rightarrow>
               (case evaluateExpression (drop (Suc i) expr) scope1 of
                  (Inl e, scope2) \<Rightarrow> (Inl e, scope2)
                | (Inr right, scope2) \<Rightarrow> (addSub (expr ! i) left right, scope2))) = Inl e"
      by (subst (asm) evaluateExpression.simps)
         (simp only: Let_def expr_def [symmetric] Some option.case)
    from binary_message [OF l r addSub_message this] show ?thesis .
  next
    case None
    note addSub = None
    show ?thesis
    proof (cases "lastOperator isMulDiv expr")
      case (Some i)
      have l: "message e \<noteq> []" if "fst (evaluateExpression (take i expr) scope) = Inl e" for e
        using "1.IH"(2) [OF expr_def addSub Some that] .
      have r: "message e \<noteq> []"
        if "fst (evaluateExpression (take i expr) scope) = Inr left"
          and "fst (evaluateExpression (drop (Suc i) expr) scope) = Inl e" for left e
      proof -
        from that(1) have "(Inr left, scope) = evaluateExpression (take i expr) scope"
          by (metis evaluateExpression_pair)
        from "1.IH"(3) [OF expr_def addSub Some this refl that(2)] show ?thesis .
      qed
      from res have "fst (case evaluateExpression (take i expr) scope of
               (Inl e, scope1) \<Rightarrow> (Inl e, scope1)
             | (Inr left, scope1) \<Rightarrow>
                 (case evaluateExpression (drop (Suc i) expr) scope1 of
                    (Inl e, scope2) \<Rightarrow> (Inl e, scope2)
                  | (Inr right, scope2) \<Rightarrow> (mulDiv (expr ! i) left right, scope2))) = Inl e"
        by (subst (asm) evaluateExpression.simps)
           (simp only: Let_def expr_def [symmetric] addSub Some option.case)
      from binary_message [OF l r mulDiv_message this] show ?thesis .
    next
      case None
      have p: "message e \<noteq> []"
        if "\<not> isStringLiteral expr" "isNaN (Number expr)" "scope expr = None"
           "inputCallMatch expr = Some inner" "trim inner \<noteq> []"
           "fst (evaluateExpression (trim inner) scope) = Inl e" for inner e
        using "1.IH"(1) [OF expr_def addSub None] that by simp
      from res show ?thesis
        apply (subst (asm) evaluateExpression.simps)
        apply (simp only: Let_def expr_def [symmetric] addSub None option.case)
        apply (auto simp: p nameError_def split: option.splits if_splits)
        done
    qed
  qed
qed

subsection \<open>Well-formed traces\<close>

lemma sound_Nil [simp]: "sound L []"
  by (simp add: sound_def)

lemma sound_append [simp]: "sound L (xs @ ys) \<longleftrightarrow> sound L xs \<and> sound L ys"
  by (simp add: sound_def)

lemma sound_single:
  "sound L [s] \<longleftrightarrow> \<not> isError s \<and> 1 \<le> lineNumber s \<and> lineNumber s \<le> L"
  by (simp add: sound_def)

lemma scopeAfter_snoc [simp]: "scopeAfter scope0 (tr @ [s]) = variables s"
  by (simp add: scopeAfter_def)

lemma wellFormed_catchError:
  assumes "sound L tr" and "1 \<le> n" and "n \<le> L" and "message e \<noteq> []"
  shows "wellFormed L scope0 (catchError e n scope1 (tr @ [step\<lparr>variables := scopeAfter scope0 tr\<rparr>]))"
  using assms by (simp add: wellFormed_def catchError_def failed_def Let_def)

lemma executingStep_variables:
  "executingStep n l scope = (executingStep n l scope)\<lparr>variables := scope\<rparr>"
  by (simp add: executingStep_def)

lemma wellFormed_caught:
  assumes "sound L tr" and "1 \<le> n" and "n \<le> L" and "message e \<noteq> []"
  shows "wellFormed L scope0 (catchError e n scope1 (tr @ [executingStep n l (scopeAfter scope0 tr)]))"
  using wellFormed_catchError [OF assms, of scope0 scope1 "executingStep n l (scopeAfter scope0 tr)"]
  by (simp add: executingStep_def)

lemma inputStatement_wellFormed:
  assumes "sound L tr" and "1 \<le> n" and "n \<le> L"
    and "a = inputStatement n v g (scopeAfter scope0 tr) tr (executingStep n l (scopeAfter scope0 tr))"
  shows "\<exists>r. a = Return r \<and> wellFormed L scope0 r"
proof (cases "trim g = []")
  case True
  with assms show ?thesis
    by (auto simp: inputStatement_def wellFormed_def sound_single executingStep_def)
next
  case False
  obtain r where e: "evaluateExpression (trim g) (scopeAfter scope0 tr) = (r, scopeAfter scope0 tr)"
    using evaluateExpression_pair by blast
  show ?thesis
  proof (cases r)
    case (Inl err)
    with e have "message err \<noteq> []"
      using evaluateExpression_message [of "trim g" "scopeAfter scope0 tr" err] by simp
    with assms False e Inl show ?thesis
      by (simp add: inputStatement_def wellFormed_caught)
  next
    case (Inr prompt)
    with assms False e show ?thesis
      by (auto simp: inputStatement_def wellFormed_def sound_single executingStep_def)
  qed
qed

lemma forStatement_wellFormed:
  assumes "sound L tr" and "1 \<le> n" and "n \<le> L"
    and "a = forStatement n v lmt (scopeAfter scope0 tr) tr (executingStep n l (scopeAfter scope0 tr))"
  shows "(\<exists>r. a = Return r \<and> wellFormed L scope0 r)
    \<or> (\<exists>m tr1. a = Iterate v m (scopeAfter scope0 tr1) tr1 \<and> sound L tr1)"
proof -
  obtain r where e: "evaluateExpression lmt (scopeAfter scope0 tr) = (r, scopeAfter scope0 tr)"
    using evaluateExpression_pair by blast
  show ?thesis
  proof (cases r)
    case (Inl err)
    with e have "message err \<noteq> []"
      using evaluateExpression_message [of lmt "scopeAfter scope0 tr" err] by simp
    with assms e Inl show ?thesis
      by (simp add: forStatement_def wellFormed_caught)
  next
    case (Inr v)
    show ?thesis
    proof (cases v)
      case (VNum m)
      with assms e Inr show ?thesis
        by (auto simp: forStatement_def sound_single executingStep_def)
    next
      case (VStr s)
      with assms e Inr show ?thesis
        by (simp add: forStatement_def wellFormed_caught rangeTypeError_def)
    qed
  qed
qed

lemma assignmentStatement_wellFormed:
  assumes "sound L tr" and "1 \<le> n" and "n \<le> L"
    and "a = assignmentStatement n v ex (scopeAfter scope0 tr) tr (executingStep n l (scopeAfter scope0 tr))"
  shows "(\<exists>r. a = Return r \<and> wellFormed L scope0 r)
    \<or> (\<exists>tr1. a = Continue (scopeAfter scope0 tr1) tr1 \<and> sound L tr1)"
proof (cases "ex = []")
  case True
  with assms show ?thesis
    by (simp add: assignmentStatement_def wellFormed_caught)
next
  case False
  obtain r where e: "evaluateExpression ex (scopeAfter scope0 tr) = (r, scopeAfter scope0 tr)"
    using evaluateExpression_pair by blast
  show ?thesis
  proof (cases r)
    case (Inl err)
    with e have "message err \<noteq> []"
      using evaluateExpression_message [of ex "scopeAfter scope0 tr" err] by simp
    with assms False e Inl show ?thesis
      by (simp add: assignmentStatement_def wellFormed_caught)
  next
    case (Inr v)
    with assms False e show ?thesis
      by (auto simp: assignmentStatement_def sound_single executingStep_def Let_def)
  qed
qed

lemma printStatement_wellFormed:
  assumes "sound L tr" and "1 \<le> n" and "n \<le> L"
    and "a = printStatement n g (scopeAfter scope0 tr) tr (executingStep n l (scopeAfter scope0 tr))"
  shows "(\<exists>r. a = Return r \<and> wellFormed L scope0 r)
    \<or> (\<exists>tr1. a = Continue (scopeAfter scope0 tr1) tr1 \<and> sound L tr1)"
proof -
  obtain r where e: "evaluateExpression g (scopeAfter scope0 tr) = (r, scopeAfter scope0 tr)"
    using evaluateExpression_pair by blast
  show ?thesis
  proof (cases r)
    case (Inl err)
    with e have "message err \<noteq> []"
      using evaluateExpression_message [of g "scopeAfter scope0 tr" err] by simp
    with assms e Inl show ?thesis
      by (simp add: printStatement_def wellFormed_caught)
  next
    case (Inr v)
    with assms e show ?thesis
      by (auto simp: printStatement_def sound_single executingStep_def)
  qed
qed

lemma executeStatement_wellFormed:
  assumes "sound L tr" and "1 \<le> n" and "n \<le> L"
  shows "(\<exists>r. executeStatement n l (scopeAfter scope0 tr) tr = Return r \<and> wellFormed L scope0 r)
    \<or> (\<exists>tr1. executeStatement n l (scopeAfter scope0 tr) tr = Continue (scopeAfter scope0 tr1) tr1
          \<and> sound L tr1)
    \<or> (\<exists>v m tr1. executeStatement n l (scopeAfter scope0 tr) tr = Iterate v m (scopeAfter scope0 tr1) tr1
          \<and> sound L tr1)"
proof (cases "inputMatch l")
  case (Some p)
  then show ?thesis
    using inputStatement_wellFormed [OF assms refl, of "fst p" "snd p" scope0 l]
    by (auto simp: executeStatement_def split: prod.splits)
next
  case None
  note noInput = None
  show ?thesis
  proof (cases "forLoopMatch l")
    case (Some p)
    then show ?thesis
      using noInput forStatement_wellFormed [OF assms refl, of "fst p" "snd p" scope0 l]
      by (auto simp: executeStatement_def split: prod.splits)
  next
    case None
    note noFor = None
    show ?thesis
    proof (cases "assignmentMatch l")
      case (Some p)
      then show ?thesis
        using noInput noFor assignmentStatement_wellFormed [OF assms refl, of "fst p" "snd p" scope0 l]
        by (auto simp: executeStatement_def split: prod.splits)
    next
      case None
      note noAssign = None
      show ?thesis
      proof (cases "printMatch l")
        case (Some g)
        then show ?thesis
          using noInput noFor noAssign printStatement_wellFormed [OF assms refl, of g scope0 l]
          by (auto simp: executeStatement_def)
      next
        case None
        then show ?thesis
          using noInput noFor noAssign wellFormed_caught [OF assms, of "Error ''SyntaxError: invalid or unsupported syntax''" scope0 "scopeAfter scope0 tr" l]
          by (simp add: executeStatement_def)
      qed
    qed
  qed
qed

subsection \<open>The steps of a loop body, pushed into the outer trace\<close>

lemma scopeAfter_Cons: "scopeAfter scope (s # steps) = scopeAfter (variables s) steps"
  by (simp add: scopeAfter_def)

lemma pushRemapped_Completed:
  "inRange (length loopBody) steps \<Longrightarrow>
   pushRemapped loopBody steps scope tr =
     Completed (scopeAfter scope steps) (tr @ map (remap loopBody) steps)"
proof (induction steps arbitrary: scope tr)
  case Nil
  show ?case by (simp add: scopeAfter_def)
next
  case (Cons s steps)
  from Cons.prems have "inRange (length loopBody) steps"
    and "1 \<le> lineNumber s" and "lineNumber s - 1 < length loopBody"
    by (auto simp: inRange_def)
  with Cons.IH [of "variables s" "tr @ [remap loopBody s]"] show ?case
    by (simp add: scopeAfter_Cons remap_def)
qed

lemma sound_inRange: "sound L steps \<Longrightarrow> inRange L steps"
  by (simp add: sound_def inRange_def list_all_iff)

lemma sound_remap:
  assumes "sound (length loopBody) steps" and "\<forall>(l, j) \<in> set loopBody. j < L"
  shows "sound L (map (remap loopBody) steps)"
proof -
  have "snd (loopBody ! (lineNumber s - 1)) + 1 \<le> L"
    if "1 \<le> lineNumber s" "lineNumber s \<le> length loopBody" for s
  proof -
    from that have "loopBody ! (lineNumber s - 1) \<in> set loopBody" by simp
    with assms(2) show ?thesis by (auto simp: split_beta)
  qed
  with assms(1) show ?thesis
    by (auto simp: sound_def list_all_iff remap_def)
qed

lemma scopeAfter_remap:
  "scopeAfter scope0 (tr @ map (remap loopBody) steps) = scopeAfter (scopeAfter scope0 tr) steps"
  by (cases steps rule: rev_cases) (simp_all add: scopeAfter_def remap_def)

lemma blank_run:
  "getExecutionTrace fuel [] scope start inp = Some r \<Longrightarrow> trace r = [] \<and> error r = None"
proof (cases fuel)
  case 0
  then show "getExecutionTrace fuel [] scope start inp = Some r \<Longrightarrow> ?thesis"
    by (simp add: getExecutionTrace.simps)
next
  case (Suc f)
  assume r: "getExecutionTrace fuel [] scope start inp = Some r"
  show ?thesis
  proof (cases f)
    case 0
    with Suc r show ?thesis by (simp add: getExecutionTrace.simps runLines.simps)
  next
    case f: (Suc f')
    show ?thesis
    proof (cases f')
      case 0
      with Suc f r show ?thesis
        by (auto simp: getExecutionTrace.simps runLines.simps trim_def split: if_splits)
    next
      case (Suc f'')
      with \<open>fuel = Suc f\<close> f r show ?thesis
        by (auto simp: getExecutionTrace.simps runLines.simps trim_def split: if_splits)
    qed
  qed
qed

lemma iteration_pushed:
  assumes sub: "wellFormed (length loopBody) (scopeAfter scope0 tr1) sub"
    and body: "\<forall>(l, j) \<in> set loopBody. j < L"
    and n: "1 \<le> n" "n \<le> L"
    and tr1: "sound L tr1"
  defines "tr2 \<equiv> tr1 @ map (remap loopBody) (trace sub)"
  shows "pushRemapped loopBody (trace sub) (scopeAfter scope0 tr1) tr1 =
           Completed (scopeAfter scope0 tr2) tr2"
    and "thrownError (error sub) = None \<Longrightarrow> sound L tr2"
    and "thrownError (error sub) = Some e \<Longrightarrow>
           wellFormed L scope0 (catchError e n (scopeAfter scope0 tr2) tr2)"
proof -
  have range: "inRange (length loopBody) (trace sub)"
  proof (cases "error sub")
    case None
    with sub show ?thesis by (simp add: wellFormed_def sound_inRange)
  next
    case (Some msg)
    with sub have f: "failed (length loopBody) (scopeAfter scope0 tr1) (trace sub) msg"
      by (simp add: wellFormed_def)
    define pre where "pre = butlast (trace sub)"
    define es where "es = last (trace sub)"
    from f have t: "trace sub = pre @ [es]" by (simp add: failed_def pre_def es_def)
    from f have "inRange (length loopBody) pre"
      by (simp add: failed_def sound_inRange pre_def)
    moreover from f have "inRange (length loopBody) [es]"
      by (simp add: failed_def inRange_def es_def)
    ultimately show ?thesis
      unfolding t by (simp add: inRange_def)
  qed
  from pushRemapped_Completed [OF range]
  show "pushRemapped loopBody (trace sub) (scopeAfter scope0 tr1) tr1 =
           Completed (scopeAfter scope0 tr2) tr2"
    by (simp add: tr2_def scopeAfter_remap)
  show "sound L tr2" if "thrownError (error sub) = None"
  proof (cases "error sub")
    case None
    with sub have "sound (length loopBody) (trace sub)" by (simp add: wellFormed_def)
    from sound_remap [OF this body] tr1 show ?thesis by (simp add: tr2_def)
  next
    case (Some msg)
    with that have "msg = []" by (simp add: thrownError_def split: if_splits)
    with sub Some show ?thesis by (simp add: wellFormed_def failed_def)
  qed
  show "wellFormed L scope0 (catchError e n (scopeAfter scope0 tr2) tr2)"
    if "thrownError (error sub) = Some e"
  proof -
    from that obtain msg where msg: "error sub = Some msg" "e = Error msg" "msg \<noteq> []"
      by (auto simp: thrownError_def split: option.splits if_splits)
    with sub have f: "failed (length loopBody) (scopeAfter scope0 tr1) (trace sub) msg"
      by (simp add: wellFormed_def)
    define pre where "pre = butlast (trace sub)"
    define es where "es = last (trace sub)"
    from f have t: "trace sub = pre @ [es]" by (simp add: failed_def pre_def es_def)
    from f have pre: "sound (length loopBody) pre" by (simp add: failed_def pre_def)
    from f have es: "variables es = scopeAfter (scopeAfter scope0 tr1) pre"
      by (simp add: failed_def pre_def es_def)
    have tr2: "tr2 = (tr1 @ map (remap loopBody) pre) @ [remap loopBody es]"
      by (simp add: tr2_def t)
    have "sound L (tr1 @ map (remap loopBody) pre)"
      using sound_remap [OF pre body] tr1 by simp
    moreover have "variables (remap loopBody es) = scopeAfter scope0 (tr1 @ map (remap loopBody) pre)"
      by (simp add: scopeAfter_remap es remap_def)
    ultimately show ?thesis
      using n msg unfolding tr2
      by (simp add: wellFormed_def catchError_def failed_def Let_def butlast_append remap_def)
  qed
qed

subsection \<open>Every run is well formed\<close>

lemma run_wellFormed:
  "(\<forall>code scope0 start inp r.
      getExecutionTrace fuel code scope0 start inp = Some r \<longrightarrow>
      wellFormed (length (splitLines code)) (assignInput inp scope0) r)
   \<and> (\<forall>lines i tr scope0 r.
      noLF lines \<longrightarrow> sound (length lines) tr \<longrightarrow>
      runLines fuel lines i (scopeAfter scope0 tr) tr = Some r \<longrightarrow>
      wellFormed (length lines) scope0 r)
   \<and> (\<forall>loopBody loopVar loopLimit n k tr scope0 L out.
      noLF (map fst loopBody) \<longrightarrow> (\<forall>(l, j) \<in> set loopBody. j < L) \<longrightarrow> 1 \<le> n \<longrightarrow> n \<le> L \<longrightarrow>
      sound L tr \<longrightarrow>
      runIterations fuel loopBody loopVar loopLimit n k (scopeAfter scope0 tr) tr = Some out \<longrightarrow>
      iterated L scope0 n out)"
proof (induction fuel)
  case 0
  show ?case
    by (simp add: getExecutionTrace.simps runLines.simps runIterations.simps)
next
  case (Suc fuel)
  then have IH1: "wellFormed (length (splitLines code)) (assignInput inp scope0) r"
    if "getExecutionTrace fuel code scope0 start inp = Some r" for code scope0 start inp r
    using that by blast
  from Suc have IH2: "wellFormed (length lines) scope0 r"
    if "noLF lines" "sound (length lines) tr"
       "runLines fuel lines i (scopeAfter scope0 tr) tr = Some r" for lines i tr scope0 r
    using that by blast
  from Suc have IH3: "iterated L scope0 n out"
    if "noLF (map fst loopBody)" "\<forall>(l, j) \<in> set loopBody. j < L" "1 \<le> n" "n \<le> L" "sound L tr"
       "runIterations fuel loopBody loopVar loopLimit n k (scopeAfter scope0 tr) tr = Some out"
    for loopBody loopVar loopLimit n k tr scope0 L out
    using that by blast
  have P1: "wellFormed (length (splitLines code)) (assignInput inp scope0) r"
    if "getExecutionTrace (Suc fuel) code scope0 start inp = Some r" for code scope0 start inp r
  proof -
    from that have "runLines fuel (splitLines code) start
        (scopeAfter (assignInput inp scope0) []) [] = Some r"
      by (simp add: getExecutionTrace.simps scopeAfter_def)
    from IH2 [OF noLF_splitLines sound_Nil this] show ?thesis .
  qed
  have P2: "wellFormed (length lines) scope0 r"
    if lines: "noLF lines" and tr: "sound (length lines) tr"
      and run: "runLines (Suc fuel) lines i (scopeAfter scope0 tr) tr = Some r"
    for lines i tr scope0 r
  proof (cases "i < length lines")
    case False
    with run tr show ?thesis
      by (auto simp: runLines.simps wellFormed_def)
  next
    case inside: True
    show ?thesis
    proof (cases "trim (lines ! i) = [] \<or> startsWith (trim (lines ! i)) ''#''")
      case True
      with run inside have "runLines fuel lines (i + 1) (scopeAfter scope0 tr) tr = Some r"
        by (simp add: runLines.simps)
      from IH2 [OF lines tr this] show ?thesis .
    next
      case False
      from inside have n: "1 \<le> i + 1" "i + 1 \<le> length lines" by simp_all
      let ?a = "executeStatement (i + 1) (trim (lines ! i)) (scopeAfter scope0 tr) tr"
      from run inside False
      have run': "(case ?a of
           Return response \<Rightarrow> Some response
         | Continue scope1 tr1 \<Rightarrow> runLines fuel lines (i + 1) scope1 tr1
         | Iterate loopVar loopLimit scope1 tr1 \<Rightarrow>
             (case runIterations fuel
                     (fst (collectBody (indentOf (lines ! i)) (i + 1) (drop (i + 1) lines)))
                     loopVar loopLimit (i + 1) 0 scope1 tr1 of
                None \<Rightarrow> None
              | Some (Threw e scope2 tr2) \<Rightarrow> Some (catchError e (i + 1) scope2 tr2)
              | Some (Completed scope2 tr2) \<Rightarrow>
                  runLines fuel lines
                    (snd (collectBody (indentOf (lines ! i)) (i + 1) (drop (i + 1) lines)))
                    scope2 tr2)) = Some r"
        by (simp add: runLines.simps)
      from executeStatement_wellFormed [OF tr n, of "trim (lines ! i)" scope0]
      consider (ret) r1 where "?a = Return r1" "wellFormed (length lines) scope0 r1"
        | (cont) tr1 where "?a = Continue (scopeAfter scope0 tr1) tr1" "sound (length lines) tr1"
        | (iter) v m tr1 where "?a = Iterate v m (scopeAfter scope0 tr1) tr1" "sound (length lines) tr1"
        by blast
      then show ?thesis
      proof cases
        case ret
        with run' show ?thesis by simp
      next
        case cont
        with run' have "runLines fuel lines (i + 1) (scopeAfter scope0 tr1) tr1 = Some r" by simp
        from IH2 [OF lines cont(2) this] show ?thesis .
      next
        case iter
        let ?body = "fst (collectBody (indentOf (lines ! i)) (Suc i) (drop (Suc i) lines))"
        let ?j = "snd (collectBody (indentOf (lines ! i)) (Suc i) (drop (Suc i) lines))"
        from run' iter obtain out where
          out: "runIterations fuel ?body v m (i + 1) 0 (scopeAfter scope0 tr1) tr1 = Some out"
          by (auto split: option.splits)
        from IH3 [OF collectBody_lines [OF lines inside] n iter(2) out]
        have it: "iterated (length lines) scope0 (i + 1) out" .
        show ?thesis
        proof (cases out)
          case (Completed scope2 tr2)
          with it have "sound (length lines) tr2" "scope2 = scopeAfter scope0 tr2"
            by (simp_all add: iterated_def)
          moreover from run' iter out Completed
          have "runLines fuel lines ?j scope2 tr2 = Some r" by simp
          ultimately show ?thesis using IH2 [OF lines, of tr2 ?j scope0 r] by simp
        next
          case (Threw e scope2 tr2)
          with run' iter out have "r = catchError e (i + 1) scope2 tr2" by simp
          with it Threw show ?thesis by (simp add: iterated_def)
        qed
      qed
    qed
  qed
  have P3: "iterated L scope0 n out"
    if body: "noLF (map fst loopBody)" "\<forall>(l, j) \<in> set loopBody. j < L"
      and n: "1 \<le> n" "n \<le> L" and tr: "sound L tr"
      and run: "runIterations (Suc fuel) loopBody loopVar loopLimit n k (scopeAfter scope0 tr) tr = Some out"
    for loopBody loopVar loopLimit n k tr scope0 L out
  proof (cases "lessThanLimit k loopLimit")
    case False
    with run tr show ?thesis
      by (auto simp: runIterations.simps iterated_def)
  next
    case True
    define scope1 where "scope1 = (scopeAfter scope0 tr)(loopVar \<mapsto> VNum (Fin (of_nat k)))"
    define tr1 where "tr1 = tr @ [iterationStep n loopVar k scope1]"
    have tr1: "sound L tr1"
      using tr n by (simp add: tr1_def sound_single iterationStep_def)
    have scope1: "scope1 = scopeAfter scope0 tr1"
      by (simp add: tr1_def iterationStep_def)
    from run True have run': "(case getExecutionTrace fuel (joinLines (map fst loopBody)) scope1 0 None of
           None \<Rightarrow> None
         | Some loopExecutor \<Rightarrow>
             (case pushRemapped loopBody (trace loopExecutor) scope1 tr1 of
                Threw e scope2 tr2 \<Rightarrow> Some (Threw e scope2 tr2)
              | Completed scope2 tr2 \<Rightarrow>
                  (case thrownError (error loopExecutor) of
                     Some e \<Rightarrow> Some (Threw e scope2 tr2)
                   | None \<Rightarrow>
                       runIterations fuel loopBody loopVar loopLimit n (k + 1) scope2 tr2))) = Some out"
      unfolding scope1_def tr1_def by (simp add: runIterations.simps)
    then obtain sub where
      sub: "getExecutionTrace fuel (joinLines (map fst loopBody)) scope1 0 None = Some sub"
      by (auto split: option.splits)
    have "wellFormed (length loopBody) scope1 sub"
    proof (cases "loopBody = []")
      case True
      with sub blank_run [of fuel scope1 0 None sub] show ?thesis
        by (simp add: wellFormed_def)
    next
      case False
      with body(1) have "splitLines (joinLines (map fst loopBody)) = map fst loopBody"
        by (simp add: splitLines_joinLines)
      with IH1 [OF sub] show ?thesis by (simp add: assignInput_def)
    qed
    then have wf: "wellFormed (length loopBody) (scopeAfter scope0 tr1) sub"
      using scope1 by simp
    define tr2 where "tr2 = tr1 @ map (remap loopBody) (trace sub)"
    note pushed = iteration_pushed [OF wf body(2) n tr1, folded tr2_def]
    show ?thesis
    proof (cases "thrownError (error sub)")
      case None
      with run' sub pushed(1) scope1
      have "runIterations fuel loopBody loopVar loopLimit n (k + 1) (scopeAfter scope0 tr2) tr2 = Some out"
        by simp
      from IH3 [OF body n pushed(2) [OF None] this] show ?thesis .
    next
      case (Some e)
      with run' sub pushed(1) scope1
      have "out = Threw e (scopeAfter scope0 tr2) tr2" by simp
      with pushed(3) [OF Some] show ?thesis by (simp add: iterated_def)
    qed
  qed
  from P1 P2 P3 show ?case by blast
qed

subsection \<open>More fuel changes no result\<close>

lemma fuel_mono:
  "(\<forall>code scope0 start inp r.
      getExecutionTrace fuel code scope0 start inp = Some r \<longrightarrow>
      getExecutionTrace (fuel + d) code scope0 start inp = Some r)
   \<and> (\<forall>lines i scope tr r.
      runLines fuel lines i scope tr = Some r \<longrightarrow>
      runLines (fuel + d) lines i scope tr = Some r)
   \<and> (\<forall>loopBody loopVar loopLimit n k scope tr out.
      runIterations fuel loopBody loopVar loopLimit n k scope tr = Some out \<longrightarrow>
      runIterations (fuel + d) loopBody loopVar loopLimit n k scope tr = Some out)"
proof (induction fuel)
  case 0
  show ?case
    by (simp add: getExecutionTrace.simps runLines.simps runIterations.simps)
next
  case (Suc fuel)
  then have IH1: "getExecutionTrace (fuel + d) code scope0 start inp = Some r"
    if "getExecutionTrace fuel code scope0 start inp = Some r" for code scope0 start inp r
    using that by blast
  from Suc have IH2: "runLines (fuel + d) lines i scope tr = Some r"
    if "runLines fuel lines i scope tr = Some r" for lines i scope tr r
    using that by blast
  from Suc have IH3: "runIterations (fuel + d) loopBody loopVar loopLimit n k scope tr = Some out"
    if "runIterations fuel loopBody loopVar loopLimit n k scope tr = Some out"
    for loopBody loopVar loopLimit n k scope tr out
    using that by blast
  have P1: "getExecutionTrace (Suc fuel + d) code scope0 start inp = Some r"
    if "getExecutionTrace (Suc fuel) code scope0 start inp = Some r" for code scope0 start inp r
    using that IH2 by (simp add: getExecutionTrace.simps)
  have P2: "runLines (Suc fuel + d) lines i scope tr = Some r"
    if "runLines (Suc fuel) lines i scope tr = Some r" for lines i scope tr r
    using that
    by (auto simp: runLines.simps IH2 IH3 split: if_splits action.splits option.splits outcome.splits)
  have P3: "runIterations (Suc fuel + d) loopBody loopVar loopLimit n k scope tr = Some out"
    if "runIterations (Suc fuel) loopBody loopVar loopLimit n k scope tr = Some out"
    for loopBody loopVar loopLimit n k scope tr out
    using that
    by (auto simp: runIterations.simps IH1 IH3 split: if_splits option.splits outcome.splits)
  from P1 P2 P3 show ?case by blast
qed

lemma getExecutionTrace_deterministic:
  assumes "getExecutionTrace f1 code scope0 start inp = Some r1"
    and "getExecutionTrace f2 code scope0 start inp = Some r2"
  shows "r1 = r2"
proof -
  from assms(1) fuel_mono [of f1 f2]
  have "getExecutionTrace (f1 + f2) code scope0 start inp = Some r1" by blast
  moreover from assms(2) fuel_mono [of f2 f1]
  have "getExecutionTrace (f2 + f1) code scope0 start inp = Some r2" by blast
  ultimately show ?thesis by (simp add: add.commute)
qed

section \<open>Runs of the example programs\<close>

lemmas string_defs = dquote_def squote_def isSpace_def isLineTerminator_def isDigit_def isWord_def
  trim_def startsWith_def endsWith_def

lemmas number_defs = Number_def nonDecimalIntegerLiteral_def strUnsigned_def
  strUnsignedDecimalLiteral_def exponentPart_def digitsValue_def digitVal_def isDigitOf_def
  numberToString_def intToString_def natToString.simps digitChar_def subtract_def signed_def

lemmas evaluator_defs = lastOperator_def isAddSub_def isMulDiv_def isStringLiteral_def
  sliceInner_def matchToClosingParen_def inputCallMatch_def evaluateExpression.simps
  nameError_def operandTypeError_def zeroDivisionError_def

lemmas statement_defs = inputMatch_def forLoopMatch_def assignmentMatch_def printMatch_def
  executingStep_def catchError_def coerceInput_def assignInput_def indentOf_def
  undefinedIndexError_def thrownError_def iterationStep_def rangeTypeError_def
  inputStatement_def forStatement_def assignmentStatement_def printStatement_def
  executeStatement_def getExecutionTrace.simps runLines.simps runIterations.simps

lemma fuel_plus:
  "fuel + 2 = Suc (Suc fuel)"
  "fuel + 3 = Suc (Suc (Suc fuel))"
  "fuel + 5 = Suc (Suc (Suc (Suc (Suc fuel))))"
  "fuel + 6 = Suc (Suc (Suc (Suc (Suc (Suc fuel)))))"
  "fuel + 9 = Suc (Suc (Suc (Suc (Suc (Suc (Suc (Suc (Suc fuel))))))))"
  by simp_all

lemmas run_defs = fuel_plus Let_def string_defs number_defs evaluator_defs statement_defs
  plainStep_def errorStep_def

lemma age_first_run:
  "getExecutionTrace (fuel + 2) ageProgram Map.empty 0 None =
     Some \<lparr>trace = [(plainStep 1 ''Age: '' Map.empty)
                       \<lparr>requiresInput := True, inputVariable := Some ''age''\<rparr>],
           error = None\<rparr>"
  by (simp add: ageProgram_def run_defs)

lemma age_second_run:
  "getExecutionTrace (fuel + 3) ageProgram Map.empty 1 (Some (''age'', ''30'')) =
     Some \<lparr>trace = [(plainStep 2 ''Printing output'' [''age'' \<mapsto> VNum (Fin 30)])
                       \<lparr>output := Some ''30''\<rparr>],
           error = None\<rparr>"
  by (simp add: ageProgram_def run_defs)

lemma loop_run:
  "getExecutionTrace (fuel + 9) loopProgram Map.empty 0 None =
     Some \<lparr>trace =
       [plainStep 1 (''Assign 0 to '' @ [squote] @ ''count'' @ [squote])
          [''count'' \<mapsto> VNum (Fin 0)],
        plainStep 2 ''Starting a loop that will run 3 times.''
          [''count'' \<mapsto> VNum (Fin 0)],
        plainStep 2 (''Loop iteration 1. Set '' @ [squote] @ ''i'' @ [squote] @ '' to 0.'')
          [''count'' \<mapsto> VNum (Fin 0), ''i'' \<mapsto> VNum (Fin 0)],
        plainStep 3 (''Assign 1 to '' @ [squote] @ ''count'' @ [squote])
          [''count'' \<mapsto> VNum (Fin 0), ''i'' \<mapsto> VNum (Fin 0), ''count'' \<mapsto> VNum (Fin 1)],
        plainStep 2 (''Loop iteration 2. Set '' @ [squote] @ ''i'' @ [squote] @ '' to 1.'')
          [''count'' \<mapsto> VNum (Fin 0), ''i'' \<mapsto> VNum (Fin 0), ''count'' \<mapsto> VNum (Fin 1),
           ''i'' \<mapsto> VNum (Fin 1)],
        plainStep 3 (''Assign 2 to '' @ [squote] @ ''count'' @ [squote])
          [''count'' \<mapsto> VNum (Fin 0), ''i'' \<mapsto> VNum (Fin 0), ''count'' \<mapsto> VNum (Fin 1),
           ''i'' \<mapsto> VNum (Fin 1), ''count'' \<mapsto> VNum (Fin 2)],
        plainStep 2 (''Loop iteration 3. Set '' @ [squote] @ ''i'' @ [squote] @ '' to 2.'')
          [''count'' \<mapsto> VNum (Fin 0), ''i'' \<mapsto> VNum (Fin 0), ''count'' \<mapsto> VNum (Fin 1),
           ''i'' \<mapsto> VNum (Fin 1), ''count'' \<mapsto> VNum (Fin 2), ''i'' \<mapsto> VNum (Fin 2)],
        plainStep 3 (''Assign 3 to '' @ [squote] @ ''count'' @ [squote])
          [''count'' \<mapsto> VNum (Fin 0), ''i'' \<mapsto> VNum (Fin 0), ''count'' \<mapsto> VNum (Fin 1),
           ''i'' \<mapsto> VNum (Fin 1), ''count'' \<mapsto> VNum (Fin 2), ''i'' \<mapsto> VNum (Fin 2),
           ''count'' \<mapsto> VNum (Fin 3)]],
      error = None\<rparr>"
  by (simp add: loopProgram_def run_defs)

lemma input_loop_run:
  "getExecutionTrace (fuel + 6) inputLoopProgram Map.empty 0 None =
     Some \<lparr>trace =
       [plainStep 1 ''Starting a loop that will run 2 times.'' Map.empty,
        plainStep 1 (''Loop iteration 1. Set '' @ [squote] @ ''i'' @ [squote] @ '' to 0.'')
          [''i'' \<mapsto> VNum (Fin 0)],
        (plainStep 2 ''Awaiting user input...'' [''i'' \<mapsto> VNum (Fin 0)])
          \<lparr>requiresInput := True, inputVariable := Some ''x''\<rparr>,
        plainStep 1 (''Loop iteration 2. Set '' @ [squote] @ ''i'' @ [squote] @ '' to 1.'')
          [''i'' \<mapsto> VNum (Fin 1)],
        (plainStep 2 ''Awaiting user input...'' [''i'' \<mapsto> VNum (Fin 1)])
          \<lparr>requiresInput := True, inputVariable := Some ''x''\<rparr>],
      error = None\<rparr>"
  by (simp add: inputLoopProgram_def run_defs)

lemma failing_loop_run:
  "getExecutionTrace (fuel + 5) failingLoopProgram Map.empty 0 None =
     Some \<lparr>trace =
       [plainStep 1 ''Starting a loop that will run 1 times.'' Map.empty,
        plainStep 1 (''Loop iteration 1. Set '' @ [squote] @ ''i'' @ [squote] @ '' to 0.'')
          [''i'' \<mapsto> VNum (Fin 0)],
        errorStep 1 (''NameError: name '' @ [squote] @ ''x'' @ [squote] @ '' is not defined'')
          [''i'' \<mapsto> VNum (Fin 0)]],
      error = Some (''NameError: name '' @ [squote] @ ''x'' @ [squote] @ '' is not defined'')\<rparr>"
  by (simp add: failingLoopProgram_def run_defs)


lemma zero_division_run:
  "getExecutionTrace (fuel + 2) ''x = 5 / 0'' Map.empty 0 None =
     Some \<lparr>trace = [errorStep 1 ''ZeroDivisionError: division by zero'' Map.empty],
           error = Some ''ZeroDivisionError: division by zero''\<rparr>"
  by (simp add: run_defs)


section \<open>The claims about the trace builder\<close>

text \<open>
  Claim C1. For \<^verbatim>\<open>age = input("Age: ")\<close> followed by \<^verbatim>\<open>print(age)\<close>, the run from line 0
  with the empty scope returns one step, which asks for input into \<^verbatim>\<open>age\<close>, and no
  error; the run with the provided input \<^verbatim>\<open>30\<close> for \<^verbatim>\<open>age\<close>, started at the line number
  of that step with its variables, returns no error and one step, the print step, whose
  output is \<^verbatim>\<open>30\<close>: the text has become the number 30 in the scope, and the assignment has
  no step of its own.
\<close>

theorem C1_input_round_trip:
  "getExecutionTrace (fuel + 2) ageProgram Map.empty 0 None =
     Some \<lparr>trace = [(plainStep 1 ''Age: '' Map.empty)
                       \<lparr>requiresInput := True, inputVariable := Some ''age''\<rparr>],
           error = None\<rparr>
   \<and> getExecutionTrace (fuel + 3) ageProgram
         (variables ((plainStep 1 ''Age: '' Map.empty)
            \<lparr>requiresInput := True, inputVariable := Some ''age''\<rparr>))
         (lineNumber ((plainStep 1 ''Age: '' Map.empty)
            \<lparr>requiresInput := True, inputVariable := Some ''age''\<rparr>))
         (Some (''age'', ''30'')) =
     Some \<lparr>trace = [(plainStep 2 ''Printing output'' [''age'' \<mapsto> VNum (Fin 30)])
                       \<lparr>output := Some ''30''\<rparr>],
           error = None\<rparr>"
  using age_first_run [of fuel] age_second_run [of fuel] by (simp add: plainStep_def)

text \<open>
  Claim C2, at the input it fails on. An input statement inside a loop body pauses the run
  of the body only: the loop goes on with the next iteration, and the returned trace holds
  a step that requires input (the third of five) before its last step.
\<close>

theorem C2_pause_inside_loop_is_not_last:
  "getExecutionTrace (fuel + 6) inputLoopProgram Map.empty 0 None =
     Some \<lparr>trace =
       [plainStep 1 ''Starting a loop that will run 2 times.'' Map.empty,
        plainStep 1 (''Loop iteration 1. Set '' @ [squote] @ ''i'' @ [squote] @ '' to 0.'')
          [''i'' \<mapsto> VNum (Fin 0)],
        (plainStep 2 ''Awaiting user input...'' [''i'' \<mapsto> VNum (Fin 0)])
          \<lparr>requiresInput := True, inputVariable := Some ''x''\<rparr>,
        plainStep 1 (''Loop iteration 2. Set '' @ [squote] @ ''i'' @ [squote] @ '' to 1.'')
          [''i'' \<mapsto> VNum (Fin 1)],
        (plainStep 2 ''Awaiting user input...'' [''i'' \<mapsto> VNum (Fin 1)])
          \<lparr>requiresInput := True, inputVariable := Some ''x''\<rparr>],
      error = None\<rparr>"
  by (rule input_loop_run)

lemma getExecutionTrace_wellFormed:
  "getExecutionTrace fuel code initialScope startLine providedInput = Some r \<Longrightarrow>
   wellFormed (length (splitLines code)) (assignInput providedInput initialScope) r"
  using run_wellFormed [of fuel] by blast

text \<open>
  Claim C3. Whatever the source, the scope, the start line and the provided input, the
  error of the response is not null exactly when the trace is not empty and its last step
  is an error step; so a response whose last step requires input has a null error.
\<close>

theorem C3_error_iff_error_step:
  assumes "getExecutionTrace fuel code initialScope startLine providedInput = Some r"
  shows "(error r \<noteq> None \<longleftrightarrow> trace r \<noteq> [] \<and> isError (last (trace r)))
    \<and> (trace r \<noteq> [] \<and> requiresInput (last (trace r)) \<longrightarrow> error r = None)"
proof (cases "error r")
  case None
  with getExecutionTrace_wellFormed [OF assms] have "sound (length (splitLines code)) (trace r)"
    by (simp add: wellFormed_def)
  then have "\<not> isError (last (trace r))" if "trace r \<noteq> []"
    using that last_in_set [OF that] by (auto simp: sound_def list_all_iff)
  with None show ?thesis by auto
next
  case (Some msg)
  with getExecutionTrace_wellFormed [OF assms] show ?thesis
    by (simp add: wellFormed_def failed_def)
qed

theorem C3_error_iff_error_step_witness:
  "getExecutionTrace 2 ''x = 5 / 0'' Map.empty 0 None =
     Some \<lparr>trace = [errorStep 1 ''ZeroDivisionError: division by zero'' Map.empty],
           error = Some ''ZeroDivisionError: division by zero''\<rparr>
   \<and> error \<lparr>trace = [errorStep 1 ''ZeroDivisionError: division by zero'' Map.empty],
           error = Some ''ZeroDivisionError: division by zero''\<rparr> \<noteq> None
   \<and> isError (last (trace \<lparr>trace = [errorStep 1 ''ZeroDivisionError: division by zero'' Map.empty],
           error = Some ''ZeroDivisionError: division by zero''\<rparr>))"
  using zero_division_run [of 0] C3_error_iff_error_step [OF zero_division_run [of 0]]
  by (simp add: numeral_2_eq_2)





text \<open>
  Claim C7, at the input it fails on. The body of the loop fails on line 2. The step that
  the recursive call returns for it is pushed with line 2, then the \<^verbatim>\<open>catch\<close> block pops
  it and pushes the error step with the line number of the loop header, line 1.
\<close>

theorem C7_error_step_in_loop_has_header_line:
  "getExecutionTrace (fuel + 5) failingLoopProgram Map.empty 0 None =
     Some \<lparr>trace =
       [plainStep 1 ''Starting a loop that will run 1 times.'' Map.empty,
        plainStep 1 (''Loop iteration 1. Set '' @ [squote] @ ''i'' @ [squote] @ '' to 0.'')
          [''i'' \<mapsto> VNum (Fin 0)],
        errorStep 1 (''NameError: name '' @ [squote] @ ''x'' @ [squote] @ '' is not defined'')
          [''i'' \<mapsto> VNum (Fin 0)]],
      error = Some (''NameError: name '' @ [squote] @ ''x'' @ [squote] @ '' is not defined'')\<rparr>"
  by (rule failing_loop_run)

text \<open>
  Claim C6, as the code has it. The loop program returns with no error a trace of 8 steps:
  the assignment step of \<^verbatim>\<open>count = 0\<close>, one loop-start step, and three times an
  iteration-start step followed by the assignment step of the body; the variables of the
  last step map \<^verbatim>\<open>count\<close> to 3 and \<^verbatim>\<open>i\<close> to 2.
\<close>

theorem C6_loop_fidelity:
  "\<exists>r. getExecutionTrace (fuel + 9) loopProgram Map.empty 0 None = Some r
     \<and> error r = None
     \<and> length (trace r) = 8
     \<and> map description (trace r) =
         [VStr (''Assign 0 to '' @ [squote] @ ''count'' @ [squote]),
          VStr ''Starting a loop that will run 3 times.'',
          VStr (''Loop iteration 1. Set '' @ [squote] @ ''i'' @ [squote] @ '' to 0.''),
          VStr (''Assign 1 to '' @ [squote] @ ''count'' @ [squote]),
          VStr (''Loop iteration 2. Set '' @ [squote] @ ''i'' @ [squote] @ '' to 1.''),
          VStr (''Assign 2 to '' @ [squote] @ ''count'' @ [squote]),
          VStr (''Loop iteration 3. Set '' @ [squote] @ ''i'' @ [squote] @ '' to 2.''),
          VStr (''Assign 3 to '' @ [squote] @ ''count'' @ [squote])]
     \<and> map lineNumber (trace r) = [1, 2, 2, 3, 2, 3, 2, 3]
     \<and> variables (last (trace r)) ''count'' = Some (VNum (Fin 3))
     \<and> variables (last (trace r)) ''i'' = Some (VNum (Fin 2))"
  by (simp add: loop_run plainStep_def)

text \<open>
  The claim as the specification states it, seven steps in total, holds for no run of the
  loop program.
\<close>

theorem C6_seven_steps_counterexample:
  "\<not> (\<exists>fuel r. getExecutionTrace fuel loopProgram Map.empty 0 None = Some r
        \<and> length (trace r) = 7)"
proof
  assume "\<exists>fuel r. getExecutionTrace fuel loopProgram Map.empty 0 None = Some r
        \<and> length (trace r) = 7"
  then obtain fuel r where r: "getExecutionTrace fuel loopProgram Map.empty 0 None = Some r"
    and seven: "length (trace r) = 7"
    by blast
  from getExecutionTrace_deterministic [OF r loop_run [of 0]] seven
  show False by simp
qed

section \<open>The empty operand\<close>











section \<open>The loop header\<close>




















end
